theory Spec2Isabelle
  imports Main
begin

section \<open>Shared data: errors, packages, dependencies\<close>

text \<open>
  Exceptions of the Python source are values of \<open>error\<close>; a call that may raise returns
  \<open>error + 'a\<close> with \<open>Inl\<close> for the raised exception. \<open>RepositoryError\<close> wraps the
  exception it was built from (\<^verbatim>\<open>raise RepositoryError(e)\<close>).
\<close>

datatype error =
    ValueError string
  | RuntimeError string
  | PackageNotFound string
  | IndexError
  | HTTPError nat
  | RepositoryError error
  | OtherError string

text \<open>
  A \<open>Version\<close> of the external semver library: an opaque parsed representation (equality of
  versions is equality of parsed representations) carrying its \<^verbatim>\<open>is_unstable()\<close> answer.
\<close>

datatype version = Version (parsed: string) (is_unstable: bool)

text \<open>
  A \<open>VersionConstraint\<close> of the external semver library, by what the source asks of it:
  \<^verbatim>\<open>isinstance(constraint, VersionRange)\<close> (the constructor), \<^verbatim>\<open>min\<close>/\<^verbatim>\<open>max\<close> of a
  range, \<^verbatim>\<open>is_any()\<close>, \<^verbatim>\<open>allows(version)\<close> and \<^verbatim>\<open>str(constraint)\<close>.
\<close>

datatype constraint =
    VersionRange (cmin: "version option") (cmax: "version option")
      (is_any: bool) (allows: "version \<Rightarrow> bool") (ctext: string)
  | OtherConstraint (is_any: bool) (allows: "version \<Rightarrow> bool") (ctext: string)

text \<open>\<^verbatim>\<open>dependency.constraint\<close> as the source treats it: \<^verbatim>\<open>None\<close>, a raw string, or a constraint object.\<close>

datatype dep_constraint = NoConstraint | ConstraintStr string | ConstraintObj constraint

record dependency =
  dep_name :: string
  dep_constraint :: dep_constraint
  source_name :: "string option"
  dep_allows_prereleases :: bool

record package =
  pkg_name :: string
  pkg_version :: version
  source_type :: "string option"
  source_reference :: "string option"
  source_url :: "string option"

text \<open>The \<^verbatim>\<open>project\<close> argument of \<^verbatim>\<open>Pool.package\<close>: a \<^verbatim>\<open>ManagedProject\<close> or any other object.\<close>

datatype project = ManagedProject string | OtherObject

text \<open>
  \<^verbatim>\<open>str.lower()\<close> on the byte strings of the model: the ASCII letters \<open>A\<close>..\<open>Z\<close> move
  to \<open>a\<close>..\<open>z\<close>, every other byte stays.
\<close>

definition lower_char :: "char \<Rightarrow> char" where
  "lower_char c =
     (case map_of (zip ''ABCDEFGHIJKLMNOPQRSTUVWXYZ'' ''abcdefghijklmnopqrstuvwxyz'') c of
        Some l \<Rightarrow> l
      | None \<Rightarrow> c)"

definition lower :: "string \<Rightarrow> string" where
  "lower s = map lower_char s"

section \<open>Pool (src/poetry/repositories/pool.py)\<close>

text \<open>
  A repository as the pool sees it: its \<^verbatim>\<open>name\<close> (possibly \<^verbatim>\<open>None\<close>) and the answers of
  its \<^verbatim>\<open>package\<close> and \<^verbatim>\<open>find_packages\<close> methods. \<open>Inr None\<close> of \<open>repo_package\<close> is a
  falsy return value (\<^verbatim>\<open>if package:\<close> in the scan).
\<close>

record repository =
  repo_name :: "string option"
  repo_package :: "string \<Rightarrow> string \<Rightarrow> project \<Rightarrow> string list option \<Rightarrow> error + package option"
  repo_find_packages :: "dependency \<Rightarrow> error + package list"

text \<open>
  The fields of \<^verbatim>\<open>Pool.__init__\<close>: \<^verbatim>\<open>_lookup\<close>, \<^verbatim>\<open>_repositories\<close>, \<^verbatim>\<open>_default\<close>,
  \<^verbatim>\<open>_has_primary_repositories\<close>, \<^verbatim>\<open>_secondary_start_idx\<close>, \<^verbatim>\<open>_parent\<close>,
  \<^verbatim>\<open>_ignore_repository_names\<close> and the accumulation list \<^verbatim>\<open>_packages\<close>.
\<close>

datatype Pool = Pool
  (lookup: "string option \<rightharpoonup> nat")
  (repositories: "repository list")
  (has_default: bool)
  (has_primary_repositories: bool)
  (secondary_start_idx: "nat option")
  (parent: "Pool option")
  (ignore_repository_names: bool)
  (pool_packages: "package list")

text \<open>\<^verbatim>\<open>list.insert(i, x)\<close> for a non-negative index: past the end it appends.\<close>

definition list_insert :: "nat \<Rightarrow> 'a \<Rightarrow> 'a list \<Rightarrow> 'a list" where
  "list_insert i x xs = take i xs @ [x] @ drop i xs"

text \<open>\<^verbatim>\<open>del xs[i]\<close>: raises IndexError out of range.\<close>

definition list_del :: "nat \<Rightarrow> 'a list \<Rightarrow> error + 'a list" where
  "list_del i xs = (if i < length xs then Inr (take i xs @ drop (Suc i) xs) else Inl IndexError)"

fun add_repository :: "Pool \<Rightarrow> repository \<Rightarrow> bool \<Rightarrow> bool \<Rightarrow> error + Pool" where
  "add_repository (Pool lk rs d hp ssi par ign pk) repository dflt secondary =
     (let repository_name = map_option lower (repo_name repository) in
      if dflt then
        (if d then Inl (ValueError ''Only one repository can be the default'')
         else
           Inr (Pool ((\<lambda>name. map_option Suc (lk name))(repository_name \<mapsto> 0))
                  (list_insert 0 repository rs) True hp (map_option Suc ssi) par ign pk))
      else if secondary then
        (let ssi' = (case ssi of None \<Rightarrow> Some (length rs) | Some b \<Rightarrow> Some b);
             rs' = rs @ [repository]
         in Inr (Pool (lk(repository_name \<mapsto> length rs' - 1)) rs' d hp ssi' par ign pk))
      else
        (case ssi of
           None \<Rightarrow>
             (let rs' = rs @ [repository]
              in Inr (Pool (lk(repository_name \<mapsto> length rs' - 1)) rs' d True None par ign pk))
         | Some b \<Rightarrow>
             Inr (Pool
                    ((\<lambda>name. map_option (\<lambda>idx. if idx < b then idx else idx + 1) (lk name))
                       (repository_name \<mapsto> b))
                    (list_insert b repository rs) d True (Some (b + 1)) par ign pk)))"

fun remove_repository :: "Pool \<Rightarrow> string option \<Rightarrow> error + Pool" where
  "remove_repository (Pool lk rs d hp ssi par ign pk) repository_name =
     (case lk (map_option lower repository_name) of
        None \<Rightarrow> Inr (Pool lk rs d hp ssi par ign pk)
      | Some idx \<Rightarrow>
          (case list_del idx rs of
             Inl e \<Rightarrow> Inl e
           | Inr rs' \<Rightarrow> Inr (Pool lk rs' d hp ssi par ign pk)))"

text \<open>\<^verbatim>\<open>Pool.__init__\<close>: every repository of the argument list is added as a primary.\<close>

fun add_all :: "Pool \<Rightarrow> repository list \<Rightarrow> error + Pool" where
  "add_all p [] = Inr p"
| "add_all p (r # rs) =
     (case add_repository p r False False of Inl e \<Rightarrow> Inl e | Inr p' \<Rightarrow> add_all p' rs)"

definition Pool_init :: "repository list \<Rightarrow> bool \<Rightarrow> Pool option \<Rightarrow> error + Pool" where
  "Pool_init repos ign par =
     (case add_all (Pool Map.empty [] False False None par False []) repos of
        Inl e \<Rightarrow> Inl e
      | Inr (Pool lk rs dflt hp ssi par' _ pk) \<Rightarrow> Inr (Pool lk rs dflt hp ssi par' ign pk))"

text \<open>\<^verbatim>\<open>Pool.repository(name)\<close>.\<close>

definition Pool_repository :: "Pool \<Rightarrow> string option \<Rightarrow> error + repository" where
  "Pool_repository p name =
     (let name' = map_option lower name in
      case lookup p name' of
        Some idx \<Rightarrow>
          (if idx < length (repositories p) then Inr (repositories p ! idx) else Inl IndexError)
      | None \<Rightarrow>
          Inl (ValueError (''Repository \"'' @ (case name' of Some n \<Rightarrow> n | None \<Rightarrow> ''None'')
                 @ ''\" does not exist.'')))"

text \<open>
  The scan of \<^verbatim>\<open>Pool.package\<close> over \<^verbatim>\<open>self._repositories\<close>: a client's PackageNotFound and
  a falsy return value both continue the loop, any other exception leaves it. \<open>None\<close>: the
  loop ended without returning.
\<close>

fun scan_package ::
  "repository list \<Rightarrow> string \<Rightarrow> string \<Rightarrow> project \<Rightarrow> string list option
     \<Rightarrow> (error + package) option" where
  "scan_package [] name version project extras = None"
| "scan_package (repo # rest) name version project extras =
     (case repo_package repo name version project extras of
        Inl (PackageNotFound m) \<Rightarrow> scan_package rest name version project extras
      | Inl e \<Rightarrow> Some (Inl e)
      | Inr None \<Rightarrow> scan_package rest name version project extras
      | Inr (Some package) \<Rightarrow> Some (Inr package))"

text \<open>
  \<^verbatim>\<open>Pool.package\<close>. The result comes with the pool after the call: the scan appends the
  package it returns to \<^verbatim>\<open>_packages\<close>, and a call delegated to the parent may do so in the
  parent.
\<close>

fun Pool_package ::
  "Pool \<Rightarrow> string \<Rightarrow> string \<Rightarrow> project \<Rightarrow> string list option \<Rightarrow> string option
     \<Rightarrow> (error + package option) \<times> Pool" where
  "Pool_package (Pool lk rs d hp ssi par ign pk) name version project extras repository0 =
     (case project of
        OtherObject \<Rightarrow> (Inl (RuntimeError ''HERE: ''), Pool lk rs d hp ssi par ign pk)
      | ManagedProject pr \<Rightarrow>
          (let repository = map_option lower repository0 in
           if repository \<noteq> None \<and> lk repository = None \<and> \<not> ign then
             (case par of
                Some q \<Rightarrow>
                  (case Pool_package q name version project extras repository of
                     (res, q') \<Rightarrow> (res, Pool lk rs d hp ssi (Some q') ign pk))
              | None \<Rightarrow>
                  (Inl (ValueError (''Repository \"'' @ the repository @ ''\" does not exist.'')),
                   Pool lk rs d hp ssi par ign pk))
           else
             (case
                (if repository \<noteq> None \<and> \<not> ign then
                   (case Pool_repository (Pool lk rs d hp ssi par ign pk) repository of
                      Inl e \<Rightarrow> Some (Inl e, Pool lk rs d hp ssi par ign pk)
                    | Inr repo \<Rightarrow>
                        (case repo_package repo name version project extras of
                           Inl (PackageNotFound m) \<Rightarrow> None
                         | Inl e \<Rightarrow> Some (Inl e, Pool lk rs d hp ssi par ign pk)
                         | Inr res \<Rightarrow> Some (Inr res, Pool lk rs d hp ssi par ign pk)))
                 else
                   (case scan_package rs name version project extras of
                      None \<Rightarrow> None
                    | Some (Inl e) \<Rightarrow> Some (Inl e, Pool lk rs d hp ssi par ign pk)
                    | Some (Inr package) \<Rightarrow>
                        Some (Inr (Some package), Pool lk rs d hp ssi par ign (pk @ [package]))))
              of
                Some out \<Rightarrow> out
              | None \<Rightarrow>
                  (case par of
                     Some q \<Rightarrow>
                       (case Pool_package q name version project extras repository of
                          (res, q') \<Rightarrow> (res, Pool lk rs d hp ssi (Some q') ign pk))
                   | None \<Rightarrow>
                       (Inl (PackageNotFound
                               (''Package '' @ name @ '' ('' @ version @ '') not found.'')),
                        Pool lk rs d hp ssi par ign pk)))))"

text \<open>
  The loop of \<^verbatim>\<open>Pool.find_packages\<close>: the first non-empty answer is added to the (empty)
  \<^verbatim>\<open>packages\<close> list and ends the loop.
\<close>

fun scan_find_packages :: "repository list \<Rightarrow> dependency \<Rightarrow> error + package list" where
  "scan_find_packages [] dependency = Inr []"
| "scan_find_packages (repo # rest) dependency =
     (case repo_find_packages repo dependency of
        Inl e \<Rightarrow> Inl e
      | Inr found_packages \<Rightarrow>
          (if length found_packages > 0 then Inr ([] @ found_packages)
           else scan_find_packages rest dependency))"

text \<open>\<^verbatim>\<open>xs[:stop]\<close> with \<^verbatim>\<open>stop\<close> either \<^verbatim>\<open>None\<close> or a non-negative index.\<close>

definition slice_to :: "nat option \<Rightarrow> 'a list \<Rightarrow> 'a list" where
  "slice_to stop xs = (case stop of None \<Rightarrow> xs | Some b \<Rightarrow> take b xs)"

fun Pool_find_packages :: "Pool \<Rightarrow> dependency \<Rightarrow> error + package list" where
  "Pool_find_packages (Pool lk rs d hp ssi par ign pk) dependency =
     (let repository = map_option lower (source_name dependency) in
      if repository \<noteq> None \<and> lk repository = None \<and> \<not> ign then
        (case par of
           Some q \<Rightarrow> Pool_find_packages q dependency
         | None \<Rightarrow>
             Inl (ValueError (''Repository \"'' @ the repository @ ''\" does not exist.'')))
      else if repository \<noteq> None \<and> \<not> ign then
        (case Pool_repository (Pool lk rs d hp ssi par ign pk) repository of
           Inl e \<Rightarrow> Inl e
         | Inr repo \<Rightarrow> repo_find_packages repo dependency)
      else
        (case scan_find_packages (slice_to ssi rs) dependency of
           Inl e \<Rightarrow> Inl e
         | Inr packages \<Rightarrow>
             (case par of
                Some q \<Rightarrow>
                  (if length packages = 0 then Pool_find_packages q dependency
                   else Inr packages)
              | None \<Rightarrow> Inr packages)))"

section \<open>Page (src/poetry/repositories/legacy_repository.py)\<close>

record response =
  status_code :: nat
  resp_url :: string
  content :: string
  headers :: "string \<rightharpoonup> string"

text \<open>An \<^verbatim>\<open><a>\<close> element of the parsed document, by the two attributes the source reads.\<close>

record anchor =
  href :: "string option"
  data_requires_python :: "string option"

text \<open>
  A \<^verbatim>\<open>Link\<close> as the source builds it: \<^verbatim>\<open>Link(url, self, requires_python=pyrequire)\<close>. Its
  derived \<^verbatim>\<open>filename\<close>, \<^verbatim>\<open>ext\<close> and \<^verbatim>\<open>splitext()\<close> are computed by the external
  library from the URL.
\<close>

record link =
  link_url :: string
  requires_python :: "string option"

text \<open>
  What the module takes from outside the repository's sources, as parameters: the HTTP
  session (\<^verbatim>\<open>self.session.get\<close>, which may raise), \<^verbatim>\<open>cgi.parse_header\<close> (the
  \<^verbatim>\<open>charset\<close> parameter), \<^verbatim>\<open>html5lib.parse(...).findall(".//a")\<close>, \<^verbatim>\<open>urljoin\<close>,
  \<^verbatim>\<open>unescape\<close>, the derived attributes of \<^verbatim>\<open>Link\<close>, \<^verbatim>\<open>wheel_file_re\<close> (its \<^verbatim>\<open>ver\<close> group,
  \<open>None\<close> when the file name does not match), \<^verbatim>\<open>Version.parse\<close> (\<open>None\<close> for ValueError)
  and \<^verbatim>\<open>parse_constraint\<close>.
\<close>

record externals =
  session_get :: "string \<Rightarrow> error + response"
  parse_header_charset :: "string \<Rightarrow> string option"
  html_anchors :: "string \<Rightarrow> string option \<Rightarrow> anchor list"
  urljoin :: "string \<Rightarrow> string \<Rightarrow> string"
  unescape :: "string \<Rightarrow> string"
  Link_filename :: "string \<Rightarrow> string"
  Link_splitext :: "string \<Rightarrow> string \<times> string"
  wheel_file_ver :: "string \<Rightarrow> string option"
  Version_parse :: "string \<Rightarrow> version option"
  parse_constraint :: "string \<Rightarrow> constraint"

record page =
  page_url :: string
  page_content :: string
  page_encoding :: "string option"

definition endswith_slash :: "string \<Rightarrow> bool" where
  "endswith_slash url = (url \<noteq> [] \<and> last url = CHR ''/'')"

text \<open>\<^verbatim>\<open>Page.__init__\<close>.\<close>

definition Page_init :: "externals \<Rightarrow> string \<Rightarrow> string \<Rightarrow> (string \<rightharpoonup> string) \<Rightarrow> page" where
  "Page_init ex url content0 headers0 =
     (let url' = (if \<not> endswith_slash url then url @ ''/'' else url);
          encoding =
            (case headers0 ''Content-Type'' of
               Some ct \<Rightarrow> parse_header_charset ex ct
             | None \<Rightarrow> None)
      in \<lparr>page_url = url', page_content = content0, page_encoding = encoding\<rparr>)"

definition SUPPORTED_FORMATS :: "string list" where
  "SUPPORTED_FORMATS =
     [''.tar.gz'', ''.whl'', ''.zip'', ''.tar.bz2'', ''.tar.xz'', ''.tar.Z'', ''.tar'']"

definition is_digit :: "char \<Rightarrow> bool" where
  "is_digit c = (c \<in> set ''0123456789'')"

definition is_letter :: "char \<Rightarrow> bool" where
  "is_letter c =
     (c \<in> set ''abcdefghijklmnopqrstuvwxyzABCDEFGHIJKLMNOPQRSTUVWXYZ'')"

text \<open>
  \<^verbatim>\<open>_clean_re\<close>, case-insensitive: the characters it leaves alone are the letters, the
  digits and \<^verbatim>\<open>$&+,/:;=?@.#%_\|-\<close>.
\<close>

definition clean_safe :: "char \<Rightarrow> bool" where
  "clean_safe c =
     (is_letter c \<or> is_digit c \<or> c \<in> set ''$&+,/:;=?@.#%_|-'' \<or> c = CHR 0x5C)"

definition hex_digit :: "nat \<Rightarrow> char" where
  "hex_digit n = (''0123456789abcdef'' ! (n mod 16))"

text \<open>\<^verbatim>\<open>"%%%2x" % ord(c)\<close> for a byte: \<open>%\<close>, then the hexadecimal digits padded to width 2 with a space.\<close>

definition percent_2x :: "char \<Rightarrow> string" where
  "percent_2x c =
     (let n = (of_char c :: nat) in
      if n < 16 then [CHR ''%'', CHR '' '', hex_digit n]
      else [CHR ''%'', hex_digit (n div 16), hex_digit n])"

definition clean_link :: "string \<Rightarrow> string" where
  "clean_link url = concat (map (\<lambda>c. if clean_safe c then [c] else percent_2x c) url)"

definition link_ext :: "externals \<Rightarrow> link \<Rightarrow> string" where
  "link_ext ex l = snd (Link_splitext ex (link_url l))"

text \<open>The loop of \<^verbatim>\<open>Page.links\<close> over the anchors of the document.\<close>

fun links_of_anchors :: "externals \<Rightarrow> page \<Rightarrow> anchor list \<Rightarrow> link list" where
  "links_of_anchors ex pg [] = []"
| "links_of_anchors ex pg (a # rest) =
     (case href a of
        None \<Rightarrow> links_of_anchors ex pg rest
      | Some h \<Rightarrow>
          (if h = [] then links_of_anchors ex pg rest
           else
             (let url = clean_link (urljoin ex (page_url pg) h);
                  pyrequire =
                    (case data_requires_python a of
                       None \<Rightarrow> None
                     | Some r \<Rightarrow> if r = [] then None else Some (unescape ex r));
                  l = \<lparr>link_url = url, requires_python = pyrequire\<rparr>
              in if link_ext ex l \<notin> set SUPPORTED_FORMATS then links_of_anchors ex pg rest
                 else l # links_of_anchors ex pg rest)))"

definition Page_links :: "externals \<Rightarrow> page \<Rightarrow> link list" where
  "Page_links ex pg = links_of_anchors ex pg (html_anchors ex (page_content pg) (page_encoding pg))"

text \<open>
  \<^verbatim>\<open>VERSION_REGEX.match(info)\<close>, group 2. The pattern is
  \<^verbatim>\<open>(?i)([a-z0-9_\-.]+?)-(?=\d)([a-z0-9_.!+-]+)\<close>: the first group is lazy, so the match
  takes the first hyphen that has at least one character of the first class before it and
  a digit after it; the second group is greedy and nothing follows it.
\<close>

definition name_char :: "char \<Rightarrow> bool" where
  "name_char c = (is_letter c \<or> is_digit c \<or> c \<in> set ''_-.'')"

definition version_char :: "char \<Rightarrow> bool" where
  "version_char c = (is_letter c \<or> is_digit c \<or> c \<in> set ''_.!+-'')"

fun version_regex_rest :: "string \<Rightarrow> string option" where
  "version_regex_rest [] = None"
| "version_regex_rest (c # cs) =
     (if c = CHR ''-'' \<and> cs \<noteq> [] \<and> is_digit (hd cs) then Some (takeWhile version_char cs)
      else if name_char c then version_regex_rest cs
      else None)"

definition VERSION_REGEX_group2 :: "string \<Rightarrow> string option" where
  "VERSION_REGEX_group2 info =
     (case info of
        [] \<Rightarrow> None
      | c # cs \<Rightarrow> if name_char c then version_regex_rest cs else None)"

text \<open>\<^verbatim>\<open>Page.link_version\<close>.\<close>

definition link_version :: "externals \<Rightarrow> link \<Rightarrow> version option" where
  "link_version ex l =
     (case wheel_file_ver ex (Link_filename ex (link_url l)) of
        Some ver \<Rightarrow> Version_parse ex ver
      | None \<Rightarrow>
          (case VERSION_REGEX_group2 (fst (Link_splitext ex (link_url l))) of
             None \<Rightarrow> None
           | Some v \<Rightarrow> Version_parse ex v))"

text \<open>The generator \<^verbatim>\<open>Page.versions\<close>: the loop over the links with its \<^verbatim>\<open>seen\<close> set.\<close>

fun versions_loop :: "externals \<Rightarrow> link list \<Rightarrow> version set \<Rightarrow> version list" where
  "versions_loop ex [] seen = []"
| "versions_loop ex (l # rest) seen =
     (case link_version ex l of
        None \<Rightarrow> versions_loop ex rest seen
      | Some v \<Rightarrow>
          (if v \<in> seen then versions_loop ex rest seen
           else v # versions_loop ex rest (insert v seen)))"

definition Page_versions :: "externals \<Rightarrow> page \<Rightarrow> version list" where
  "Page_versions ex pg = versions_loop ex (Page_links ex pg) {}"

definition Page_links_for_version :: "externals \<Rightarrow> page \<Rightarrow> version \<Rightarrow> link list" where
  "Page_links_for_version ex pg v = filter (\<lambda>l. link_version ex l = Some v) (Page_links ex pg)"

section \<open>LegacyRepository (src/poetry/repositories/legacy_repository.py)\<close>

text \<open>
  Modelled from the spec: the matched-versions cache store (the external \<^verbatim>\<open>cachy\<close> store
  behind \<^verbatim>\<open>self._cache.store("matches")\<close>) is a key/value store with \<^verbatim>\<open>get\<close>, \<^verbatim>\<open>put\<close>,
  \<^verbatim>\<open>has\<close> and a time to live: an entry written at time \<open>T\<close> with a time to live of 5 is
  read back before \<open>T + 5\<close> and is gone from then on. An entry is its expiry time and its
  value; \<open>now\<close> is the clock in the units of the time to live.
\<close>

type_synonym 'v store = "string \<rightharpoonup> nat \<times> 'v"

definition store_get :: "'v store \<Rightarrow> nat \<Rightarrow> string \<Rightarrow> 'v option" where
  "store_get st now key =
     (case st key of
        None \<Rightarrow> None
      | Some (expiry, v) \<Rightarrow> if now < expiry then Some v else None)"

definition store_has :: "'v store \<Rightarrow> nat \<Rightarrow> string \<Rightarrow> bool" where
  "store_has st now key = (store_get st now key \<noteq> None)"

definition store_put :: "'v store \<Rightarrow> nat \<Rightarrow> string \<Rightarrow> 'v \<Rightarrow> nat \<Rightarrow> 'v store" where
  "store_put st now key v minutes = st(key \<mapsto> (now + minutes, v))"

text \<open>
  The state of a \<^verbatim>\<open>LegacyRepository\<close> that \<^verbatim>\<open>find_packages\<close>, \<^verbatim>\<open>find_links_for_package\<close>
  and \<^verbatim>\<open>_get\<close> read and write: \<^verbatim>\<open>name\<close>, \<^verbatim>\<open>_url\<close> and the \<^verbatim>\<open>matches\<close> store.
\<close>

record LegacyRepository =
  lr_name :: string
  lr_url :: string
  matches :: "version list store"

text \<open>
  \<^verbatim>\<open>response.raise_for_status()\<close> of the external \<^verbatim>\<open>requests\<close> library: it raises
  \<^verbatim>\<open>HTTPError\<close> for the client and server error statuses, 400 to 599, and returns for
  every other status.
\<close>

definition raise_for_status :: "response \<Rightarrow> error option" where
  "raise_for_status r =
     (if 400 \<le> status_code r \<and> status_code r < 600 then Some (HTTPError (status_code r))
      else None)"

text \<open>
  \<^verbatim>\<open>LegacyRepository._get\<close>. \<open>Inr None\<close> is the plain \<^verbatim>\<open>return\<close> (no page). The
  \<^verbatim>\<open>except requests.HTTPError\<close> clause covers the whole \<^verbatim>\<open>try\<close> block, the call of
  \<^verbatim>\<open>session.get\<close> included; logging is left out.
\<close>

definition LegacyRepository_get ::
  "externals \<Rightarrow> LegacyRepository \<Rightarrow> string \<Rightarrow> error + page option" where
  "LegacyRepository_get ex repo endpoint =
     (let url = lr_url repo @ endpoint in
      case session_get ex url of
        Inl (HTTPError n) \<Rightarrow> Inl (RepositoryError (HTTPError n))
      | Inl e \<Rightarrow> Inl e
      | Inr response \<Rightarrow>
          (if status_code response = 401 \<or> status_code response = 403 then Inr None
           else if status_code response = 404 then Inr None
           else
             (case raise_for_status response of
                Some (HTTPError n) \<Rightarrow> Inl (RepositoryError (HTTPError n))
              | Some e \<Rightarrow> Inl e
              | None \<Rightarrow>
                  Inr (Some (Page_init ex (resp_url response) (content response)
                               (headers response))))))"

text \<open>Lines 246 to 251 of \<^verbatim>\<open>find_packages\<close>: the constraint the call works with.\<close>

definition normalize_constraint :: "externals \<Rightarrow> dep_constraint \<Rightarrow> constraint" where
  "normalize_constraint ex c =
     (case c of
        NoConstraint \<Rightarrow> parse_constraint ex ''*''
      | ConstraintStr s \<Rightarrow> parse_constraint ex s
      | ConstraintObj k \<Rightarrow> k)"

text \<open>Lines 253 to 261 of \<^verbatim>\<open>find_packages\<close>: the local \<^verbatim>\<open>allow_prereleases\<close>.\<close>

definition allow_prereleases_of :: "dependency \<Rightarrow> constraint \<Rightarrow> bool" where
  "allow_prereleases_of dependency c =
     (case c of
        VersionRange mn mx any al txt \<Rightarrow>
          (if (case mx of None \<Rightarrow> False | Some v \<Rightarrow> is_unstable v)
              \<or> (case mn of None \<Rightarrow> False | Some v \<Rightarrow> is_unstable v)
           then True
           else dep_allows_prereleases dependency)
      | OtherConstraint any al txt \<Rightarrow> dep_allows_prereleases dependency)"

text \<open>Lines 263 to 265: the key of the matched-versions cache.\<close>

definition cache_key :: "dependency \<Rightarrow> constraint \<Rightarrow> string" where
  "cache_key dependency c =
     (if \<not> is_any c then dep_name dependency @ '':'' @ ctext c else dep_name dependency)"

text \<open>
  Lines 276 to 285: the loop over \<^verbatim>\<open>page.versions\<close>, with the lists \<^verbatim>\<open>versions\<close> and
  \<^verbatim>\<open>ignored_pre_release_versions\<close> it appends to.
\<close>

fun select_versions ::
  "bool \<Rightarrow> constraint \<Rightarrow> version list \<Rightarrow> version list \<Rightarrow> version list
     \<Rightarrow> version list \<times> version list" where
  "select_versions allow_prereleases c [] versions ignored = (versions, ignored)"
| "select_versions allow_prereleases c (v # rest) versions ignored =
     (if is_unstable v \<and> \<not> allow_prereleases then
        (if is_any c then select_versions allow_prereleases c rest versions (ignored @ [v])
         else select_versions allow_prereleases c rest versions ignored)
      else if allows c v then select_versions allow_prereleases c rest (versions @ [v]) ignored
      else select_versions allow_prereleases c rest versions ignored)"

definition make_package :: "dependency \<Rightarrow> LegacyRepository \<Rightarrow> version \<Rightarrow> package" where
  "make_package dependency repo v =
     \<lparr>pkg_name = dep_name dependency, pkg_version = v, source_type = Some ''legacy'',
      source_reference = Some (lr_name repo), source_url = Some (lr_url repo)\<rparr>"

text \<open>
  Lines 289 to 310: the loop over \<^verbatim>\<open>(versions, ignored_pre_release_versions)\<close>, which
  appends to \<^verbatim>\<open>packages\<close> and breaks once there are packages or the constraint is not any.
\<close>

fun build_packages ::
  "dependency \<Rightarrow> LegacyRepository \<Rightarrow> constraint \<Rightarrow> version list list \<Rightarrow> package list
     \<Rightarrow> package list" where
  "build_packages dependency repo c [] packages = packages"
| "build_packages dependency repo c (package_versions # rest) packages =
     (let packages' = packages @ map (make_package dependency repo) package_versions in
      if packages' \<noteq> [] \<or> \<not> is_any c then packages'
      else build_packages dependency repo c rest packages')"

text \<open>\<^verbatim>\<open>name.replace(".", "-")\<close>.\<close>

definition replace_dots :: "string \<Rightarrow> string" where
  "replace_dots name = map (\<lambda>c. if c = CHR ''.'' then CHR ''-'' else c) name"

text \<open>
  \<^verbatim>\<open>LegacyRepository.find_packages\<close> at clock \<open>now\<close>. The result comes with the repository
  after the call (the \<^verbatim>\<open>matches\<close> store is written on a miss).
\<close>

definition LegacyRepository_find_packages ::
  "externals \<Rightarrow> nat \<Rightarrow> LegacyRepository \<Rightarrow> dependency
     \<Rightarrow> (error + package list) \<times> LegacyRepository" where
  "LegacyRepository_find_packages ex now repo dependency =
     (let c = normalize_constraint ex (dep_constraint dependency);
          allow_prereleases = allow_prereleases_of dependency c;
          key = cache_key dependency c
      in
        if store_has (matches repo) now key then
          (case store_get (matches repo) now key of
             Some versions \<Rightarrow> (Inr (build_packages dependency repo c [versions, []] []), repo)
           | None \<Rightarrow> (Inl (OtherError ''TypeError''), repo))
        else
          (case LegacyRepository_get ex repo (''/'' @ replace_dots (dep_name dependency) @ ''/'') of
             Inl e \<Rightarrow> (Inl e, repo)
           | Inr None \<Rightarrow> (Inr [], repo)
           | Inr (Some pg) \<Rightarrow>
               (case select_versions allow_prereleases c (Page_versions ex pg) [] [] of
                  (versions, ignored) \<Rightarrow>
                    (Inr (build_packages dependency repo c [versions, ignored] []),
                     repo\<lparr>matches := store_put (matches repo) now key versions 5\<rparr>))))"

text \<open>\<^verbatim>\<open>LegacyRepository.find_links_for_package\<close>.\<close>

definition LegacyRepository_find_links_for_package ::
  "externals \<Rightarrow> LegacyRepository \<Rightarrow> package \<Rightarrow> error + link list" where
  "LegacyRepository_find_links_for_package ex repo package =
     (case LegacyRepository_get ex repo (''/'' @ replace_dots (pkg_name package) @ ''/'') of
        Inl e \<Rightarrow> Inl e
      | Inr None \<Rightarrow> Inr []
      | Inr (Some pg) \<Rightarrow> Inr (Page_links_for_version ex pg (pkg_version package)))"

section \<open>Invariants of the pool\<close>

text \<open>
  Every registered name maps to a position of the list, and the repository at that position
  carries the name (lower-cased, as it is registered); the secondary boundary, when set, is a
  position of the list or its end.
\<close>

definition lookup_consistent :: "Pool \<Rightarrow> bool" where
  "lookup_consistent p =
     (\<forall>name idx. lookup p name = Some idx \<longrightarrow>
        idx < length (repositories p)
        \<and> map_option lower (repo_name (repositories p ! idx)) = name)"

definition boundary_in_range :: "Pool \<Rightarrow> bool" where
  "boundary_in_range p =
     (case secondary_start_idx p of None \<Rightarrow> True | Some b \<Rightarrow> b \<le> length (repositories p))"

text \<open>A sequence of \<^verbatim>\<open>add_repository\<close> calls, each with its \<^verbatim>\<open>default\<close> and \<^verbatim>\<open>secondary\<close> flags.\<close>

fun add_many :: "Pool \<Rightarrow> (repository \<times> bool \<times> bool) list \<Rightarrow> error + Pool" where
  "add_many p [] = Inr p"
| "add_many p ((r, dflt, sec) # ops) =
     (case add_repository p r dflt sec of Inl e \<Rightarrow> Inl e | Inr p' \<Rightarrow> add_many p' ops)"

text \<open>
  The tiers of a pool: the list is the default (at most one), then the primaries, then the
  secondaries; the default flag says whether there is a default; the boundary is unset as
  long as there is no secondary and is the position of the first secondary otherwise.
\<close>

definition tiered :: "Pool \<Rightarrow> repository list \<Rightarrow> repository list \<Rightarrow> repository list \<Rightarrow> bool" where
  "tiered p ds ps ss =
     (repositories p = ds @ ps @ ss \<and> length ds \<le> 1 \<and> has_default p = (ds \<noteq> [])
      \<and> secondary_start_idx p = (if ss = [] then None else Some (length ds + length ps)))"

text \<open>What a sequence of calls adds to each tier, in call order.\<close>

definition added_defaults :: "(repository \<times> bool \<times> bool) list \<Rightarrow> repository list" where
  "added_defaults ops = map fst (filter (\<lambda>(r, dflt, sec). dflt) ops)"

definition added_primaries :: "(repository \<times> bool \<times> bool) list \<Rightarrow> repository list" where
  "added_primaries ops = map fst (filter (\<lambda>(r, dflt, sec). \<not> dflt \<and> \<not> sec) ops)"

definition added_secondaries :: "(repository \<times> bool \<times> bool) list \<Rightarrow> repository list" where
  "added_secondaries ops = map fst (filter (\<lambda>(r, dflt, sec). \<not> dflt \<and> sec) ops)"

section \<open>Notions used in the statements about the index client\<close>

text \<open>
  First-seen deduplication, as the spec words it: walk the list, keep an element unless it
  was seen before.
\<close>

fun first_seen_from :: "'a set \<Rightarrow> 'a list \<Rightarrow> 'a list" where
  "first_seen_from seen [] = []"
| "first_seen_from seen (x # xs) =
     (if x \<in> seen then first_seen_from seen xs else x # first_seen_from (insert x seen) xs)"

text \<open>
  The spec's condition for forcing prereleases: the constraint is a version range whose
  stated minimum or maximum bound is an unstable version.
\<close>

definition range_with_unstable_bound :: "constraint \<Rightarrow> bool" where
  "range_with_unstable_bound c =
     (case c of
        VersionRange mn mx any al txt \<Rightarrow>
          (\<exists>v. mn = Some v \<and> is_unstable v) \<or> (\<exists>v. mx = Some v \<and> is_unstable v)
      | OtherConstraint any al txt \<Rightarrow> False)"

section \<open>Concrete pools\<close>

text \<open>Sequencing of calls that may raise.\<close>

definition and_then :: "error + 'a \<Rightarrow> ('a \<Rightarrow> error + 'b) \<Rightarrow> error + 'b" where
  "and_then r f = (case r of Inl e \<Rightarrow> Inl e | Inr x \<Rightarrow> f x)"

definition no_package :: "string \<Rightarrow> string \<Rightarrow> project \<Rightarrow> string list option \<Rightarrow> error + package option" where
  "no_package name version project extras = Inl (PackageNotFound name)"

definition plain_repo :: "string \<Rightarrow> repository" where
  "plain_repo n = \<lparr>repo_name = Some n, repo_package = no_package, repo_find_packages = (\<lambda>d. Inr [])\<rparr>"

definition empty_pool :: Pool where
  "empty_pool = Pool Map.empty [] False False None None False []"

definition repository_names :: "error + Pool \<Rightarrow> error + string option list" where
  "repository_names r = and_then r (\<lambda>p. Inr (map repo_name (repositories p)))"

definition lookup_in :: "error + Pool \<Rightarrow> string \<Rightarrow> error + nat option" where
  "lookup_in r n = and_then r (\<lambda>p. Inr (lookup p (Some n)))"

definition resolved_name :: "error + Pool \<Rightarrow> string \<Rightarrow> error + string option" where
  "resolved_name r n = and_then r (\<lambda>p. and_then (Pool_repository p (Some n)) (\<lambda>repo. Inr (repo_name repo)))"

definition add_primary :: "string \<Rightarrow> error + Pool \<Rightarrow> error + Pool" where
  "add_primary n r = and_then r (\<lambda>p. add_repository p (plain_repo n) False False)"

definition add_secondary :: "string \<Rightarrow> error + Pool \<Rightarrow> error + Pool" where
  "add_secondary n r = and_then r (\<lambda>p. add_repository p (plain_repo n) False True)"

definition remove_named :: "string \<Rightarrow> error + Pool \<Rightarrow> error + Pool" where
  "remove_named n r = and_then r (\<lambda>p. remove_repository p (Some n))"

definition pool_ab_minus_a :: "error + Pool" where
  "pool_ab_minus_a = remove_named ''a'' (add_primary ''b'' (add_primary ''a'' (Inr empty_pool)))"

definition pool_3p_1s_1p :: "error + Pool" where
  "pool_3p_1s_1p =
     add_primary ''primary4'' (add_secondary ''secondary1''
       (add_primary ''primary3'' (add_primary ''primary2'' (add_primary ''primary1'' (Inr empty_pool)))))"

definition pool_a_s :: Pool where
  "pool_a_s =
     Pool [Some ''a'' \<mapsto> 0, Some ''s'' \<mapsto> 1] [plain_repo ''a'', plain_repo ''s'']
       False True (Some 1) None False []"

lemmas fixture_defs = and_then_def no_package_def plain_repo_def empty_pool_def repository_names_def
  lookup_in_def resolved_name_def add_primary_def add_secondary_def
  remove_named_def lower_def lower_char_def list_insert_def list_del_def Pool_repository_def

text \<open>Repositories that answer, and pools over them, one with a parent.\<close>

definition some_package :: "string \<Rightarrow> package" where
  "some_package src =
     \<lparr>pkg_name = ''demo'', pkg_version = Version ''1.0'' False, source_type = None,
      source_reference = Some src, source_url = None\<rparr>"

definition serving_repo :: "string \<Rightarrow> repository" where
  "serving_repo n =
     \<lparr>repo_name = Some n,
      repo_package = (\<lambda>name version project extras. Inr (Some (some_package n))),
      repo_find_packages = (\<lambda>d. Inr [some_package n])\<rparr>"

definition pool_ignoring_names :: Pool where
  "pool_ignoring_names =
     Pool [Some ''a'' \<mapsto> 0, Some ''b'' \<mapsto> 1] [serving_repo ''a'', serving_repo ''b'']
       False True None None True []"

definition parent_pool :: Pool where
  "parent_pool = Pool [Some ''a'' \<mapsto> 0] [serving_repo ''a''] False True None None False []"

definition child_pool :: Pool where
  "child_pool = Pool [Some ''a'' \<mapsto> 0] [plain_repo ''a''] False True None (Some parent_pool) False []"

lemmas package_fixture_defs = some_package_def serving_repo_def pool_ignoring_names_def
  parent_pool_def child_pool_def

definition unnamed_dependency :: dependency where
  "unnamed_dependency =
     \<lparr>dep_name = ''demo'', dep_constraint = NoConstraint, source_name = None,
      dep_allows_prereleases = False\<rparr>"

definition three_matches_repo :: "string \<Rightarrow> repository" where
  "three_matches_repo n =
     \<lparr>repo_name = Some n,
      repo_package = no_package,
      repo_find_packages = (\<lambda>d. Inr [some_package n, some_package n, some_package n])\<rparr>"

definition pool_two_primaries :: Pool where
  "pool_two_primaries =
     Pool [Some ''first'' \<mapsto> 0, Some ''second'' \<mapsto> 1, Some ''extra'' \<mapsto> 2]
       [serving_repo ''first'', three_matches_repo ''second'', serving_repo ''extra'']
       False True (Some 2) None False []"

definition pool_only_secondary :: Pool where
  "pool_only_secondary =
     Pool [Some ''quiet'' \<mapsto> 0, Some ''extra'' \<mapsto> 1]
       [plain_repo ''quiet'', serving_repo ''extra'']
       False True (Some 1) (Some parent_pool) False []"

lemmas find_fixture_defs = unnamed_dependency_def three_matches_repo_def pool_two_primaries_def
  pool_only_secondary_def

text \<open>A quiet primary and an answering secondary, and the same pool with the primary removed.\<close>

definition pool_p_s :: "error + Pool" where
  "pool_p_s =
     and_then (add_repository empty_pool (plain_repo ''p'') False False)
       (\<lambda>p1. add_repository p1 (serving_repo ''s'') False True)"

definition pool_p_s_minus_p :: "error + Pool" where
  "pool_p_s_minus_p = remove_named ''p'' pool_p_s"

definition boundary_of :: "error + Pool \<Rightarrow> error + nat option" where
  "boundary_of r = and_then r (\<lambda>p. Inr (secondary_start_idx p))"

definition find_in :: "error + Pool \<Rightarrow> dependency \<Rightarrow> error + package list" where
  "find_in r dep = and_then r (\<lambda>p. Pool_find_packages p dep)"

lemmas removal_fixture_defs = pool_p_s_def pool_p_s_minus_p_def boundary_of_def find_in_def

section \<open>Concrete indexes\<close>

text \<open>
  An index that answers every request with the given status and a document whose anchors
  are the given file names; file names are split the way the external \<^verbatim>\<open>Link\<close> does for
  wheels and \<^verbatim>\<open>.tar.gz\<close> archives; a version is unstable when it has a letter.
\<close>

definition basename :: "string \<Rightarrow> string" where
  "basename u = rev (takeWhile (\<lambda>c. c \<noteq> CHR ''/'') (rev u))"

definition ends_with :: "string \<Rightarrow> string \<Rightarrow> bool" where
  "ends_with suffix s = (take (length suffix) (rev s) = rev suffix)"

definition split_archive :: "string \<Rightarrow> string \<times> string" where
  "split_archive f =
     (if ends_with ''.whl'' f then (take (length f - 4) f, ''.whl'')
      else if ends_with ''.tar.gz'' f then (take (length f - 7) f, ''.tar.gz'')
      else (f, []))"

definition wheel_version_field :: "string \<Rightarrow> string option" where
  "wheel_version_field f =
     (if ends_with ''.whl'' f
      then Some (takeWhile (\<lambda>c. c \<noteq> CHR ''-'') (drop 1 (dropWhile (\<lambda>c. c \<noteq> CHR ''-'') f)))
      else None)"

definition any_constraint :: constraint where
  "any_constraint = VersionRange None None True (\<lambda>v. True) ''*''"

definition static_index :: "nat \<Rightarrow> string list \<Rightarrow> externals" where
  "static_index status hrefs =
     \<lparr>session_get =
        (\<lambda>url. Inr \<lparr>status_code = status, resp_url = url, content = ''<html>'',
                    headers = Map.empty\<rparr>),
      parse_header_charset = (\<lambda>h. None),
      html_anchors = (\<lambda>body enc. map (\<lambda>h. \<lparr>href = Some h, data_requires_python = None\<rparr>) hrefs),
      urljoin = (\<lambda>base h. base @ h),
      unescape = (\<lambda>s. s),
      Link_filename = basename,
      Link_splitext = (\<lambda>u. split_archive (basename u)),
      wheel_file_ver = wheel_version_field,
      Version_parse = (\<lambda>s. Some (Version s (list_ex is_letter s))),
      parse_constraint = (\<lambda>s. any_constraint)\<rparr>"

definition legacy_repo :: LegacyRepository where
  "legacy_repo = \<lparr>lr_name = ''internal'', lr_url = ''https://idx'', matches = Map.empty\<rparr>"

definition django_dependency :: dependency where
  "django_dependency =
     \<lparr>dep_name = ''django'', dep_constraint = NoConstraint, source_name = None,
      dep_allows_prereleases = False\<rparr>"

definition django_index :: externals where
  "django_index = static_index 200 [''django-4.0a1-py3-none-any.whl'']"

definition django_page :: page where
  "django_page = \<lparr>page_url = ''https://idx/django/'', page_content = ''<html>'', page_encoding = None\<rparr>"

definition flask_page :: page where
  "flask_page = \<lparr>page_url = ''https://idx/flask/'', page_content = ''<html>'', page_encoding = None\<rparr>"

definition flask_index :: externals where
  "flask_index = static_index 200 [''flask-1.9.tar.gz'', ''flask-2.1.tar.gz'', ''flask-3.0a1.tar.gz'']"

definition at_least_2 :: constraint where
  "at_least_2 =
     VersionRange (Some (Version ''2.0'' False)) None False
       (\<lambda>v. parsed v \<in> set [''2.0'', ''2.1'', ''3.0a1'']) ''>=2.0''"

definition at_least_3a1 :: constraint where
  "at_least_3a1 =
     VersionRange (Some (Version ''3.0a1'' True)) None False
       (\<lambda>v. parsed v \<in> set [''3.0a1'', ''3.0'']) ''>=3.0a1''"

definition flask_dependency :: "constraint \<Rightarrow> dependency" where
  "flask_dependency c =
     \<lparr>dep_name = ''flask'', dep_constraint = ConstraintObj c, source_name = None,
      dep_allows_prereleases = False\<rparr>"

definition legacy_package :: "string \<Rightarrow> string \<Rightarrow> bool \<Rightarrow> package" where
  "legacy_package n v unstable =
     \<lparr>pkg_name = n, pkg_version = Version v unstable, source_type = Some ''legacy'',
      source_reference = Some ''internal'', source_url = Some ''https://idx''\<rparr>"

lemmas page_defs = Page_versions_def Page_links_def link_ext_def link_version_def
  SUPPORTED_FORMATS_def clean_link_def clean_safe_def is_letter_def is_digit_def
  VERSION_REGEX_group2_def name_char_def version_char_def percent_2x_def hex_digit_def
  basename_def ends_with_def split_archive_def wheel_version_field_def static_index_def

lemmas get_defs = LegacyRepository_get_def raise_for_status_def Page_init_def endswith_slash_def
  static_index_def legacy_repo_def

section \<open>Pool: registering and removing repositories\<close>

lemma list_insert_nth:
  "b \<le> length xs \<Longrightarrow>
   list_insert b x xs ! i = (if i < b then xs ! i else if i = b then x else xs ! (i - 1))"
  by (auto simp: list_insert_def nth_append min_def nth_Cons')

lemma length_list_insert [simp]: "length (list_insert b x xs) = Suc (length xs)"
  by (simp add: list_insert_def)

lemma lookup_consistentD:
  "lookup_consistent p \<Longrightarrow> lookup p name = Some idx \<Longrightarrow>
     idx < length (repositories p) \<and> map_option lower (repo_name (repositories p ! idx)) = name"
  by (simp add: lookup_consistent_def)

text \<open>
  Every path of \<^verbatim>\<open>add_repository\<close> re-derives the indices it moves: the invariant survives
  any call that returns.
\<close>

lemma add_repository_keeps_lookup_consistent:
  assumes lc: "lookup_consistent p" and br: "boundary_in_range p"
    and add: "add_repository p r dflt sec = Inr p'"
  shows "lookup_consistent p' \<and> boundary_in_range p'"
proof (cases p)
  case (Pool lk rs d hp ssi par ign pk)
  have old: "\<And>name idx. lk name = Some idx \<Longrightarrow>
      idx < length rs \<and> map_option lower (repo_name (rs ! idx)) = name"
    using lookup_consistentD [OF lc] Pool by simp
  show ?thesis
  proof (cases dflt)
    case True
    with add Pool have p': "p' = Pool ((\<lambda>name. map_option Suc (lk name))(map_option lower (repo_name r) \<mapsto> 0))
                  (list_insert 0 r rs) True hp (map_option Suc ssi) par ign pk"
      by (simp split: if_splits)
    have "lookup_consistent p'"
      unfolding lookup_consistent_def p' using old
      by (auto simp: list_insert_nth split: if_splits)
    moreover have "boundary_in_range p'"
      using br Pool by (auto simp: p' boundary_in_range_def split: option.splits)
    ultimately show ?thesis by simp
  next
    case nd: False
    show ?thesis
    proof (cases sec)
      case True
      with nd add Pool have p': "p' = Pool (lk(map_option lower (repo_name r) \<mapsto> length rs)) (rs @ [r]) d hp
          (case ssi of None \<Rightarrow> Some (length rs) | Some b \<Rightarrow> Some b) par ign pk"
        by (simp add: Let_def)
      have "lookup_consistent p'"
        unfolding lookup_consistent_def p' using old
        by (auto simp: nth_append less_Suc_eq split: if_splits)
      moreover have "boundary_in_range p'"
        using br Pool by (auto simp: p' boundary_in_range_def split: option.splits)
      ultimately show ?thesis by simp
    next
      case ns: False
      show ?thesis
      proof (cases ssi)
        case None
        with nd ns add Pool have p': "p' = Pool (lk(map_option lower (repo_name r) \<mapsto> length rs)) (rs @ [r]) d True
          None par ign pk"
          by (simp add: Let_def)
        have "lookup_consistent p'"
          unfolding lookup_consistent_def p' using old
          by (auto simp: nth_append less_Suc_eq split: if_splits)
        moreover have "boundary_in_range p'"
          by (simp add: p' boundary_in_range_def)
        ultimately show ?thesis by simp
      next
        case (Some b)
        with nd ns add Pool have p': "p' = Pool
                    ((\<lambda>name. map_option (\<lambda>idx. if idx < b then idx else idx + 1) (lk name))
                       (map_option lower (repo_name r) \<mapsto> b))
                    (list_insert b r rs) d True (Some (b + 1)) par ign pk"
          by simp
        have b: "b \<le> length rs" using br Pool Some by (simp add: boundary_in_range_def)
        have "lookup_consistent p'"
          unfolding lookup_consistent_def p' using old b
          by (auto simp: list_insert_nth split: if_splits)
        moreover have "boundary_in_range p'"
          using b by (simp add: p' boundary_in_range_def)
        ultimately show ?thesis by simp
      qed
    qed
  qed
qed

lemma empty_pool_consistent: "lookup_consistent empty_pool \<and> boundary_in_range empty_pool"
  by (simp add: lookup_consistent_def boundary_in_range_def empty_pool_def)

text \<open>So a pool that only \<^verbatim>\<open>add_repository\<close> has changed keeps its lookup table consistent.\<close>

lemma add_many_keeps_lookup_consistent:
  "lookup_consistent p \<Longrightarrow> boundary_in_range p \<Longrightarrow> add_many p ops = Inr p' \<Longrightarrow>
   lookup_consistent p' \<and> boundary_in_range p'"
proof (induction ops arbitrary: p)
  case Nil
  then show ?case by simp
next
  case (Cons op ops)
  obtain r dflt sec where op: "op = (r, dflt, sec)" by (cases op)
  from Cons.prems(3) op obtain p1 where
    p1: "add_repository p r dflt sec = Inr p1" and rest: "add_many p1 ops = Inr p'"
    by (auto split: sum.splits)
  from add_repository_keeps_lookup_consistent [OF Cons.prems(1,2) p1]
  have "lookup_consistent p1" "boundary_in_range p1" by simp_all
  then show ?case using rest by (rule Cons.IH)
qed

lemma pool_a_s_built: "add_secondary ''s'' (add_primary ''a'' (Inr empty_pool)) = Inr pool_a_s"
  by (simp add: fixture_defs pool_a_s_def)

text \<open>
  C1. The claim: after any sequence of \<^verbatim>\<open>add_repository\<close> and \<^verbatim>\<open>remove_repository\<close> calls
  every registered name's lookup entry is the position of its repository. The removal path
  deletes the list slot and leaves the table as it was. Here: register \<open>a\<close>, register \<open>b\<close>,
  remove \<open>a\<close>. The list is \<open>[b]\<close>, yet \<open>a\<close> is still registered at 0 (and resolves to
  \<open>b\<close>) and \<open>b\<close> is still registered at 1, past the end of the list: resolving \<open>b\<close>
  raises IndexError, and so does removing it.
\<close>

theorem remove_repository_leaves_stale_lookup:
  "repository_names pool_ab_minus_a = Inr [Some ''b'']
   \<and> lookup_in pool_ab_minus_a ''a'' = Inr (Some 0)
   \<and> lookup_in pool_ab_minus_a ''b'' = Inr (Some 1)
   \<and> resolved_name pool_ab_minus_a ''a'' = Inr (Some ''b'')
   \<and> resolved_name pool_ab_minus_a ''b'' = Inl IndexError
   \<and> repository_names (remove_named ''b'' pool_ab_minus_a) = Inl IndexError"
  by (simp add: pool_ab_minus_a_def fixture_defs)

text \<open>The pool of the example violates the invariant that every add path keeps.\<close>

lemma stale_lookup_not_consistent:
  "\<exists>p. pool_ab_minus_a = Inr p \<and> \<not> lookup_consistent p"
proof -
  have "pool_ab_minus_a =
      Inr (Pool [Some ''a'' \<mapsto> 0, Some ''b'' \<mapsto> 1] [plain_repo ''b''] False True None None False [])"
    by (simp add: pool_ab_minus_a_def fixture_defs)
  moreover have "\<not> lookup_consistent
      (Pool [Some ''a'' \<mapsto> 0, Some ''b'' \<mapsto> 1] [plain_repo ''b''] False True None None False [])"
    by (auto simp: lookup_consistent_def intro!: exI [of _ "Some ''b''"])
  ultimately show ?thesis by blast
qed

text \<open>
  C7, as stated: three primaries, then one secondary, then one more primary are five
  repositories, and the list has the five of them, the new primary fourth; it is not the
  four-entry list of the claim.
\<close>

theorem primary_after_secondary_counterexample:
  "repository_names pool_3p_1s_1p =
     Inr [Some ''primary1'', Some ''primary2'', Some ''primary3'', Some ''primary4'', Some ''secondary1'']
   \<and> repository_names pool_3p_1s_1p \<noteq>
     Inr [Some ''primary1'', Some ''primary2'', Some ''primary4'', Some ''secondary1'']"
  by (simp add: pool_3p_1s_1p_def fixture_defs)

lemma add_primary_no_boundary:
  assumes "secondary_start_idx p = None"
  shows "\<exists>p'. add_repository p r False False = Inr p'
     \<and> repositories p' = repositories p @ [r] \<and> secondary_start_idx p' = None"
  using assms by (cases p) (simp add: Let_def)

lemma add_all_no_boundary:
  "secondary_start_idx p = None \<Longrightarrow>
   \<exists>p'. add_all p ps = Inr p' \<and> repositories p' = repositories p @ ps
        \<and> secondary_start_idx p' = None"
proof (induction ps arbitrary: p)
  case Nil
  then show ?case by simp
next
  case (Cons r ps)
  from add_primary_no_boundary [OF Cons.prems, of r] obtain p1 where
    p1: "add_repository p r False False = Inr p1" "repositories p1 = repositories p @ [r]"
        "secondary_start_idx p1 = None" by blast
  from Cons.IH [OF p1(3)] obtain p' where
    "add_all p1 ps = Inr p'" "repositories p' = repositories p1 @ ps" "secondary_start_idx p' = None"
    by blast
  with p1 show ?case by simp
qed

lemma add_primary_at_boundary:
  assumes "secondary_start_idx p = Some b"
  shows "\<exists>p'. add_repository p r False False = Inr p'
     \<and> repositories p' = take b (repositories p) @ [r] @ drop b (repositories p)
     \<and> lookup p' (map_option lower (repo_name r)) = Some b
     \<and> (\<forall>name. name \<noteq> map_option lower (repo_name r) \<longrightarrow>
           lookup p' name = map_option (\<lambda>idx. if idx < b then idx else idx + 1) (lookup p name))
     \<and> secondary_start_idx p' = Some (b + 1)
     \<and> has_primary_repositories p'"
  using assms by (cases p) (simp add: list_insert_def)

lemma add_first_secondary:
  assumes "secondary_start_idx p = None"
  shows "\<exists>p'. add_repository p s False True = Inr p'
     \<and> repositories p' = repositories p @ [s]
     \<and> secondary_start_idx p' = Some (length (repositories p))"
  using assms by (cases p) (simp add: Let_def)

text \<open>
  C7, amended. A primary added while a secondary boundary \<open>b\<close> exists is inserted at
  position \<open>b\<close>, every lookup index at or past \<open>b\<close> moves up by one, the new name is
  recorded at \<open>b\<close> and the boundary becomes \<open>b + 1\<close>. So, from a pool with no secondary
  yet (empty, or holding a default and primaries), adding the primaries \<open>ps\<close>, then one
  secondary \<open>s\<close>, then one more primary \<open>q\<close> gives the earlier repositories, then \<open>ps\<close>,
  then \<open>q\<close>, then \<open>s\<close>: two primaries, a secondary and a third primary give
  \<open>[primary1, primary2, primary3, secondary1]\<close>.
\<close>

theorem primary_lands_at_secondary_boundary:
  "(secondary_start_idx p = Some b \<longrightarrow>
      (\<exists>p'. add_repository p r False False = Inr p'
         \<and> repositories p' = take b (repositories p) @ [r] @ drop b (repositories p)
         \<and> lookup p' (map_option lower (repo_name r)) = Some b
         \<and> (\<forall>name. name \<noteq> map_option lower (repo_name r) \<longrightarrow>
               lookup p' name = map_option (\<lambda>idx. if idx < b then idx else idx + 1) (lookup p name))
         \<and> secondary_start_idx p' = Some (b + 1)))
   \<and> (secondary_start_idx p = None \<longrightarrow>
      (\<exists>p0 p1 p2. add_all p ps = Inr p0
         \<and> add_repository p0 s False True = Inr p1
         \<and> add_repository p1 q False False = Inr p2
         \<and> repositories p1 = repositories p @ ps @ [s]
         \<and> repositories p2 = repositories p @ ps @ [q] @ [s]))"
proof (intro conjI impI)
  assume "secondary_start_idx p = Some b"
  from add_primary_at_boundary [OF this, of r]
  show "\<exists>p'. add_repository p r False False = Inr p'
         \<and> repositories p' = take b (repositories p) @ [r] @ drop b (repositories p)
         \<and> lookup p' (map_option lower (repo_name r)) = Some b
         \<and> (\<forall>name. name \<noteq> map_option lower (repo_name r) \<longrightarrow>
               lookup p' name = map_option (\<lambda>idx. if idx < b then idx else idx + 1) (lookup p name))
         \<and> secondary_start_idx p' = Some (b + 1)"
    by blast
next
  assume none: "secondary_start_idx p = None"
  from add_all_no_boundary [OF none, of ps] obtain p0 where
    p0: "add_all p ps = Inr p0" "repositories p0 = repositories p @ ps"
        "secondary_start_idx p0 = None" by blast
  from add_first_secondary [OF p0(3), of s] obtain p1 where
    p1: "add_repository p0 s False True = Inr p1" "repositories p1 = repositories p0 @ [s]"
        "secondary_start_idx p1 = Some (length (repositories p0))" by blast
  from add_primary_at_boundary [OF p1(3), of q] obtain p2 where
    p2: "add_repository p1 q False False = Inr p2"
        "repositories p2 = take (length (repositories p0)) (repositories p1) @ [q]
            @ drop (length (repositories p0)) (repositories p1)" by blast
  have "repositories p2 = repositories p @ ps @ [q] @ [s]"
    using p2(2) p1(2) p0(2) by simp
  with p0 p1 p2 show "\<exists>p0 p1 p2. add_all p ps = Inr p0
         \<and> add_repository p0 s False True = Inr p1
         \<and> add_repository p1 q False False = Inr p2
         \<and> repositories p1 = repositories p @ ps @ [s]
         \<and> repositories p2 = repositories p @ ps @ [q] @ [s]"
    by auto
qed

theorem primary_lands_at_secondary_boundary_witness:
  "secondary_start_idx pool_a_s = Some 1
   \<and> secondary_start_idx empty_pool = None
   \<and> (\<exists>p'. add_repository pool_a_s (plain_repo ''b'') False False = Inr p'
         \<and> map repo_name (repositories p') = [Some ''a'', Some ''b'', Some ''s'']
         \<and> lookup p' (Some ''a'') = Some 0
         \<and> lookup p' (Some ''b'') = Some 1
         \<and> lookup p' (Some ''s'') = Some 2
         \<and> secondary_start_idx p' = Some 2)
   \<and> repository_names
        (add_primary ''primary3'' (add_secondary ''secondary1''
          (add_primary ''primary2'' (add_primary ''primary1'' (Inr empty_pool))))) =
       Inr [Some ''primary1'', Some ''primary2'', Some ''primary3'', Some ''secondary1'']"
  using primary_lands_at_secondary_boundary [of pool_a_s 1 "plain_repo ''b''"]
    primary_lands_at_secondary_boundary [of empty_pool 0 "plain_repo ''x''"
      "[plain_repo ''primary1'', plain_repo ''primary2'']" "plain_repo ''secondary1''"
      "plain_repo ''primary3''"]
  by (simp add: pool_a_s_def fixture_defs)

text \<open>
  C8. \<^verbatim>\<open>add_repository\<close> with \<^verbatim>\<open>default=True\<close> raises the ValueError when the pool already
  has a default. Otherwise the repository is inserted at position 0, the index of every
  other registered name and the secondary boundary (when set) grow by one, the default's
  name is registered at 0 and resolves to the new repository, and from then on adding a
  default raises.
\<close>

theorem add_default_repository:
  "(has_default p \<longrightarrow>
      add_repository p r True sec = Inl (ValueError ''Only one repository can be the default''))
   \<and> (\<not> has_default p \<longrightarrow>
      (\<exists>p'. add_repository p r True sec = Inr p'
         \<and> repositories p' = r # repositories p
         \<and> lookup p' (map_option lower (repo_name r)) = Some 0
         \<and> (\<forall>name. name \<noteq> map_option lower (repo_name r) \<longrightarrow>
               lookup p' name = map_option (\<lambda>idx. idx + 1) (lookup p name))
         \<and> secondary_start_idx p' = map_option (\<lambda>b. b + 1) (secondary_start_idx p)
         \<and> has_default p'
         \<and> Pool_repository p' (repo_name r) = Inr r
         \<and> (\<forall>r2 sec2. add_repository p' r2 True sec2 =
               Inl (ValueError ''Only one repository can be the default''))))"
  by (cases p) (auto simp: list_insert_def Pool_repository_def fun_eq_iff option.map_comp o_def
      intro!: option.map_cong)

theorem add_default_repository_witness:
  "\<not> has_default pool_a_s
   \<and> (\<exists>p'. add_repository pool_a_s (plain_repo ''Mirror'') True False = Inr p'
         \<and> map repo_name (repositories p') = [Some ''Mirror'', Some ''a'', Some ''s'']
         \<and> lookup p' (Some ''mirror'') = Some 0
         \<and> lookup p' (Some ''a'') = Some 1
         \<and> lookup p' (Some ''s'') = Some 2
         \<and> secondary_start_idx p' = Some 2
         \<and> add_repository p' (plain_repo ''other'') True False =
             Inl (ValueError ''Only one repository can be the default''))"
  using add_default_repository [of pool_a_s "plain_repo ''Mirror''" False]
  by (simp add: pool_a_s_def fixture_defs)

section \<open>Pool: looking packages up\<close>

lemma lower_char_idem: "lower_char (lower_char c) = lower_char c"
  by (simp add: lower_char_def)

lemma lower_idem: "lower (lower s) = lower s"
  by (simp add: lower_def lower_char_idem)

lemma scan_package_first:
  "i < length rs \<Longrightarrow> repo_package (rs ! i) name version project extras = Inr (Some pkg) \<Longrightarrow>
   (\<forall>j<i. (\<exists>m. repo_package (rs ! j) name version project extras = Inl (PackageNotFound m))
        \<or> repo_package (rs ! j) name version project extras = Inr None) \<Longrightarrow>
   scan_package rs name version project extras = Some (Inr pkg)"
proof (induction rs arbitrary: i)
  case Nil
  then show ?case by simp
next
  case (Cons r rs)
  show ?case
  proof (cases i)
    case 0
    with Cons.prems show ?thesis by simp
  next
    case (Suc k)
    from Cons.prems(3) Suc have
      "(\<exists>m. repo_package r name version project extras = Inl (PackageNotFound m))
        \<or> repo_package r name version project extras = Inr None"
      by (metis nth_Cons_0 zero_less_Suc)
    moreover have "scan_package rs name version project extras = Some (Inr pkg)"
    proof (rule Cons.IH)
      show "k < length rs" using Cons.prems(1) Suc by simp
      show "repo_package (rs ! k) name version project extras = Inr (Some pkg)"
        using Cons.prems(2) Suc by simp
      show "\<forall>j<k. (\<exists>m. repo_package (rs ! j) name version project extras = Inl (PackageNotFound m))
        \<or> repo_package (rs ! j) name version project extras = Inr None"
        using Cons.prems(3) Suc by (metis Suc_less_eq nth_Cons_Suc)
    qed
    ultimately show ?thesis by auto
  qed
qed

lemma scan_package_none:
  "(\<forall>r\<in>set rs. (\<exists>m. repo_package r name version project extras = Inl (PackageNotFound m))
        \<or> repo_package r name version project extras = Inr None) \<Longrightarrow>
   scan_package rs name version project extras = None"
  by (induction rs) auto

text \<open>
  C2, as stated: with name matching bypassed the hinted client is not the one asked. The
  pool ignores repository names and holds \<open>a\<close> and \<open>b\<close>, both serving the package; with
  the hint \<open>b\<close> the call returns the package of \<open>a\<close>, the first client of the scan.
\<close>

theorem hinted_client_not_asked_counterexample:
  "fst (Pool_package pool_ignoring_names ''demo'' ''1.0'' (ManagedProject ''proj'') None (Some ''b''))
     = Inr (Some (some_package ''a''))
   \<and> repo_package (serving_repo ''b'') ''demo'' ''1.0'' (ManagedProject ''proj'') None
     = Inr (Some (some_package ''b''))
   \<and> some_package ''a'' \<noteq> some_package ''b''"
  by (simp add: package_fixture_defs fixture_defs)

lemma child_pool_consistent: "lookup_consistent child_pool"
  by (auto simp: lookup_consistent_def child_pool_def plain_repo_def lower_def lower_char_def
      split: if_splits)

text \<open>
  C2, amended. With a \<^verbatim>\<open>ManagedProject\<close>, a hint that this pool recognises, name
  matching not bypassed and a lookup table that is consistent with the list (as in every
  pool that only \<^verbatim>\<open>add_repository\<close> has changed), the pool asks the hinted client, the
  repository of the list that carries the hint's (lower-cased) name and stands at the
  position registered for it: what the client returns is returned, an exception other than
  PackageNotFound propagates, and on PackageNotFound the call falls through: it is
  delegated to the parent, with the lower-cased hint, if there is one, and fails with
  PackageNotFound otherwise. With name matching bypassed the hint selects no client: the
  pool scans its clients in list order, and the first package found is returned and
  appended to the accumulation list.
\<close>

theorem Pool_package_hint:
  "(\<not> ignore_repository_names p \<and> lookup_consistent p \<and> lookup p (Some (lower h)) = Some idx
      \<longrightarrow>
      idx < length (repositories p)
      \<and> map_option lower (repo_name (repositories p ! idx)) = Some (lower h)
      \<and> (\<forall>res. repo_package (repositories p ! idx) name version (ManagedProject pr) extras = Inr res
          \<longrightarrow> Pool_package p name version (ManagedProject pr) extras (Some h) = (Inr res, p))
      \<and> (\<forall>e. repo_package (repositories p ! idx) name version (ManagedProject pr) extras = Inl e
            \<and> (\<forall>m. e \<noteq> PackageNotFound m)
          \<longrightarrow> Pool_package p name version (ManagedProject pr) extras (Some h) = (Inl e, p))
      \<and> (\<forall>m. repo_package (repositories p ! idx) name version (ManagedProject pr) extras
              = Inl (PackageNotFound m)
          \<longrightarrow> (case parent p of
                 None \<Rightarrow>
                   Pool_package p name version (ManagedProject pr) extras (Some h) =
                     (Inl (PackageNotFound
                             (''Package '' @ name @ '' ('' @ version @ '') not found.'')), p)
               | Some q \<Rightarrow>
                   fst (Pool_package p name version (ManagedProject pr) extras (Some h)) =
                     fst (Pool_package q name version (ManagedProject pr) extras (Some (lower h)))
                   \<and> parent (snd (Pool_package p name version (ManagedProject pr) extras (Some h))) =
                     Some (snd (Pool_package q name version (ManagedProject pr) extras
                                  (Some (lower h)))))))
   \<and> (ignore_repository_names p \<and> i < length (repositories p)
      \<and> repo_package (repositories p ! i) name version (ManagedProject pr) extras = Inr (Some pkg)
      \<and> (\<forall>j<i. (\<exists>m. repo_package (repositories p ! j) name version (ManagedProject pr) extras
                        = Inl (PackageNotFound m))
               \<or> repo_package (repositories p ! j) name version (ManagedProject pr) extras
                        = Inr None) \<longrightarrow>
      fst (Pool_package p name version (ManagedProject pr) extras (Some h)) = Inr (Some pkg)
      \<and> pool_packages (snd (Pool_package p name version (ManagedProject pr) extras (Some h)))
          = pool_packages p @ [pkg])"
proof (cases p)
  case (Pool lk rs d hp ssi par ign pk)
  show ?thesis
  proof (intro conjI impI)
    assume a: "\<not> ignore_repository_names p \<and> lookup_consistent p
      \<and> lookup p (Some (lower h)) = Some idx"
    then have at: "idx < length (repositories p)
        \<and> map_option lower (repo_name (repositories p ! idx)) = Some (lower h)"
      using lookup_consistentD by blast
    from at show "idx < length (repositories p)" by simp
    from at show "map_option lower (repo_name (repositories p ! idx)) = Some (lower h)" by simp
    from a at have rep: "Pool_repository (Pool lk rs d hp ssi par ign pk) (Some (lower h)) = Inr (rs ! idx)"
      using Pool by (simp add: Pool_repository_def lower_idem)
    from a Pool have ni: "\<not> ign" and lk: "lk (Some (lower h)) = Some idx" by simp_all
    show "\<forall>res. repo_package (repositories p ! idx) name version (ManagedProject pr) extras = Inr res
          \<longrightarrow> Pool_package p name version (ManagedProject pr) extras (Some h) = (Inr res, p)"
      using Pool ni lk rep by simp
    show "\<forall>e. repo_package (repositories p ! idx) name version (ManagedProject pr) extras = Inl e
            \<and> (\<forall>m. e \<noteq> PackageNotFound m)
          \<longrightarrow> Pool_package p name version (ManagedProject pr) extras (Some h) = (Inl e, p)"
      using Pool ni lk rep by (auto split: error.splits)
    show "\<forall>m. repo_package (repositories p ! idx) name version (ManagedProject pr) extras
              = Inl (PackageNotFound m)
          \<longrightarrow> (case parent p of
                 None \<Rightarrow>
                   Pool_package p name version (ManagedProject pr) extras (Some h) =
                     (Inl (PackageNotFound
                             (''Package '' @ name @ '' ('' @ version @ '') not found.'')), p)
               | Some q \<Rightarrow>
                   fst (Pool_package p name version (ManagedProject pr) extras (Some h)) =
                     fst (Pool_package q name version (ManagedProject pr) extras (Some (lower h)))
                   \<and> parent (snd (Pool_package p name version (ManagedProject pr) extras (Some h))) =
                     Some (snd (Pool_package q name version (ManagedProject pr) extras
                                  (Some (lower h)))))"
      using Pool ni lk rep by (auto split: option.splits prod.splits)
  next
    assume b: "ignore_repository_names p \<and> i < length (repositories p)
      \<and> repo_package (repositories p ! i) name version (ManagedProject pr) extras = Inr (Some pkg)
      \<and> (\<forall>j<i. (\<exists>m. repo_package (repositories p ! j) name version (ManagedProject pr) extras
                        = Inl (PackageNotFound m))
               \<or> repo_package (repositories p ! j) name version (ManagedProject pr) extras
                        = Inr None)"
    then have scan: "scan_package rs name version (ManagedProject pr) extras = Some (Inr pkg)"
      using Pool scan_package_first [of i rs name version "ManagedProject pr" extras pkg] by simp
    from b Pool have ign by simp
    with scan Pool show "fst (Pool_package p name version (ManagedProject pr) extras (Some h))
        = Inr (Some pkg)" by simp
    from \<open>ign\<close> scan Pool
    show "pool_packages (snd (Pool_package p name version (ManagedProject pr) extras (Some h)))
          = pool_packages p @ [pkg]" by simp
  qed
qed

theorem Pool_package_hint_witness:
  "\<not> ignore_repository_names child_pool \<and> lookup_consistent child_pool
   \<and> lookup child_pool (Some (lower ''A'')) = Some 0
   \<and> map_option lower (repo_name (repositories child_pool ! 0)) = Some (lower ''A'')
   \<and> repo_package (repositories child_pool ! 0) ''demo'' ''1.0'' (ManagedProject ''proj'') None
       = Inl (PackageNotFound ''demo'')
   \<and> parent child_pool = Some parent_pool
   \<and> fst (Pool_package child_pool ''demo'' ''1.0'' (ManagedProject ''proj'') None (Some ''A''))
       = Inr (Some (some_package ''a''))
   \<and> fst (Pool_package parent_pool ''demo'' ''1.0'' (ManagedProject ''proj'') None (Some ''a''))
       = Inr (Some (some_package ''a''))
   \<and> ignore_repository_names pool_ignoring_names
   \<and> fst (Pool_package pool_ignoring_names ''demo'' ''1.0'' (ManagedProject ''proj'') None (Some ''zzz''))
       = Inr (Some (some_package ''a''))
   \<and> pool_packages (snd (Pool_package pool_ignoring_names ''demo'' ''1.0'' (ManagedProject ''proj'')
        None (Some ''zzz''))) = [some_package ''a'']"
  using Pool_package_hint [of child_pool "''A''" 0 "''demo''" "''1.0''" "''proj''" None 0
      "some_package ''a''"]
    Pool_package_hint [of pool_ignoring_names "''zzz''" 0 "''demo''" "''1.0''" "''proj''" None 0
      "some_package ''a''"]
    child_pool_consistent
  by (simp add: package_fixture_defs fixture_defs Let_def)

lemma scan_find_packages_first:
  "i < length rs \<Longrightarrow> repo_find_packages (rs ! i) dep = Inr found \<Longrightarrow> found \<noteq> [] \<Longrightarrow>
   (\<forall>j<i. repo_find_packages (rs ! j) dep = Inr []) \<Longrightarrow>
   scan_find_packages rs dep = Inr found"
proof (induction rs arbitrary: i)
  case Nil
  then show ?case by simp
next
  case (Cons r rs)
  show ?case
  proof (cases i)
    case 0
    with Cons.prems show ?thesis by simp
  next
    case (Suc k)
    from Cons.prems(4) Suc have "repo_find_packages r dep = Inr []"
      by (metis nth_Cons_0 zero_less_Suc)
    moreover have "scan_find_packages rs dep = Inr found"
    proof (rule Cons.IH)
      show "k < length rs" using Cons.prems(1) Suc by simp
      show "repo_find_packages (rs ! k) dep = Inr found" using Cons.prems(2) Suc by simp
      show "found \<noteq> []" by (rule Cons.prems(3))
      show "\<forall>j<k. repo_find_packages (rs ! j) dep = Inr []"
        using Cons.prems(4) Suc by (metis Suc_less_eq nth_Cons_Suc)
    qed
    ultimately show ?thesis by simp
  qed
qed

lemma scan_find_packages_all_empty:
  "(\<forall>r\<in>set rs. repo_find_packages r dep = Inr []) \<Longrightarrow> scan_find_packages rs dep = Inr []"
  by (induction rs) auto

lemma Pool_find_packages_unnamed:
  "source_name dep = None \<Longrightarrow>
   Pool_find_packages p dep =
     (case scan_find_packages (slice_to (secondary_start_idx p) (repositories p)) dep of
        Inl e \<Rightarrow> Inl e
      | Inr packages \<Rightarrow>
          (case parent p of
             Some q \<Rightarrow> if packages = [] then Pool_find_packages q dep else Inr packages
           | None \<Rightarrow> Inr packages))"
  by (cases p) (simp split: sum.splits option.splits)

text \<open>
  C3. The claim: for a dependency with no source name the scan consults the default and
  the primaries and never a secondary. The scan takes the list up to the boundary index;
  \<^verbatim>\<open>add_repository\<close> moves that index with every insertion in front of it, and
  \<^verbatim>\<open>remove_repository\<close> deletes a list slot and leaves the index where it was. Here: a
  primary \<open>p\<close> that answers nothing and a secondary \<open>s\<close> that answers a package. The
  list is \<open>[p, s]\<close> with the boundary at 1 and the lookup returns nothing: the secondary
  is not consulted. After removing \<open>p\<close> the list is \<open>[s]\<close>, the boundary is still 1,
  and the same lookup returns the secondary's package.
\<close>

theorem removal_lets_secondary_answer:
  "repository_names pool_p_s = Inr [Some ''p'', Some ''s'']
   \<and> boundary_of pool_p_s = Inr (Some 1)
   \<and> find_in pool_p_s unnamed_dependency = Inr []
   \<and> repository_names pool_p_s_minus_p = Inr [Some ''s'']
   \<and> boundary_of pool_p_s_minus_p = Inr (Some 1)
   \<and> find_in pool_p_s_minus_p unnamed_dependency = Inr [some_package ''s'']"
  by (simp add: removal_fixture_defs find_fixture_defs package_fixture_defs fixture_defs
      slice_to_def Let_def)

text \<open>
  What the scan does for every pool, in terms of the list and the boundary index: the first
  scanned client with a non-empty answer, every earlier one answering the empty list,
  decides the result, which is its answer alone; when every scanned client answers the
  empty list the call is delegated to the parent if there is one, and returns the empty
  list otherwise. The scanned clients are the whole list when the boundary is unset and
  the clients before the boundary index otherwise.
\<close>

lemma Pool_find_packages_scan:
  assumes sn: "source_name dep = None"
    and sc: "scanned = (case secondary_start_idx p of
                          None \<Rightarrow> repositories p | Some b \<Rightarrow> take b (repositories p))"
  shows "(\<forall>i found.
            i < length scanned \<and> repo_find_packages (scanned ! i) dep = Inr found \<and> found \<noteq> []
            \<and> (\<forall>j<i. repo_find_packages (scanned ! j) dep = Inr [])
            \<longrightarrow> Pool_find_packages p dep = Inr found)
         \<and> ((\<forall>r \<in> set scanned. repo_find_packages r dep = Inr [])
            \<longrightarrow> Pool_find_packages p dep =
                  (case parent p of Some q \<Rightarrow> Pool_find_packages q dep | None \<Rightarrow> Inr []))"
proof (intro conjI allI impI)
  have sl: "slice_to (secondary_start_idx p) (repositories p) = scanned"
    by (simp add: sc slice_to_def)
  {
    fix i found
    assume a: "i < length scanned \<and> repo_find_packages (scanned ! i) dep = Inr found \<and> found \<noteq> []
            \<and> (\<forall>j<i. repo_find_packages (scanned ! j) dep = Inr [])"
    then have "scan_find_packages scanned dep = Inr found"
      using scan_find_packages_first by blast
    with a show "Pool_find_packages p dep = Inr found"
      by (simp add: Pool_find_packages_unnamed [OF sn] sl split: option.splits)
  next
    assume "\<forall>r \<in> set scanned. repo_find_packages r dep = Inr []"
    then have "scan_find_packages scanned dep = Inr []"
      by (rule scan_find_packages_all_empty)
    then show "Pool_find_packages p dep =
                  (case parent p of Some q \<Rightarrow> Pool_find_packages q dep | None \<Rightarrow> Inr [])"
      by (simp add: Pool_find_packages_unnamed [OF sn] sl split: option.splits)
  }
qed

lemma Pool_find_packages_examples:
  "Pool_find_packages pool_two_primaries unnamed_dependency = Inr [some_package ''first'']
   \<and> repo_find_packages (three_matches_repo ''second'') unnamed_dependency
       = Inr [some_package ''second'', some_package ''second'', some_package ''second'']
   \<and> Pool_find_packages pool_only_secondary unnamed_dependency
       = Pool_find_packages parent_pool unnamed_dependency
   \<and> Pool_find_packages pool_only_secondary unnamed_dependency = Inr [some_package ''a'']"
  by (simp add: find_fixture_defs package_fixture_defs fixture_defs slice_to_def Let_def)

text \<open>
  As long as only \<^verbatim>\<open>add_repository\<close> changes the pool the tiers stay in place, the
  scanned clients are exactly the default and the primaries, and no secondary has a part
  in the result. The removal of the example above breaks the tiers.
\<close>

lemma add_repository_keeps_tiers:
  assumes t: "tiered p ds ps ss" and add: "add_repository p r dflt sec = Inr p'"
  shows "tiered p' (if dflt then ds @ [r] else ds)
                   (if \<not> dflt \<and> \<not> sec then ps @ [r] else ps)
                   (if \<not> dflt \<and> sec then ss @ [r] else ss)"
proof (cases p)
  case (Pool lk rs d hp ssi par ign pk)
  with t have rs: "rs = ds @ ps @ ss" and ds: "length ds \<le> 1" and d: "d = (ds \<noteq> [])"
    and ssi: "ssi = (if ss = [] then None else Some (length ds + length ps))"
    by (simp_all add: tiered_def)
  show ?thesis
  proof (cases dflt)
    case True
    with add Pool have nd: "\<not> d" by (auto split: if_splits)
    with d have "ds = []" by simp
    with True add Pool nd rs ssi show ?thesis
      by (auto simp: tiered_def list_insert_def)
  next
    case nd: False
    show ?thesis
    proof (cases sec)
      case True
      with nd add Pool rs ds d ssi show ?thesis
        by (auto simp: tiered_def Let_def)
    next
      case False
      with nd add Pool rs ds d ssi show ?thesis
        by (auto simp: tiered_def Let_def list_insert_def)
    qed
  qed
qed

lemma add_many_keeps_tiers:
  "tiered p ds ps ss \<Longrightarrow> add_many p ops = Inr p' \<Longrightarrow>
   tiered p' (ds @ added_defaults ops) (ps @ added_primaries ops) (ss @ added_secondaries ops)"
proof (induction ops arbitrary: p ds ps ss)
  case Nil
  then show ?case by (simp add: added_defaults_def added_primaries_def added_secondaries_def)
next
  case (Cons op ops)
  obtain r dflt sec where op: "op = (r, dflt, sec)" by (cases op)
  from Cons.prems(2) op obtain p1 where
    p1: "add_repository p r dflt sec = Inr p1" and rest: "add_many p1 ops = Inr p'"
    by (auto split: sum.splits)
  from Cons.IH [OF add_repository_keeps_tiers [OF Cons.prems(1) p1] rest]
  show ?case
    by (cases dflt; cases sec)
       (simp_all add: op added_defaults_def added_primaries_def added_secondaries_def)
qed

lemma tiered_scanned:
  "tiered p ds ps ss \<Longrightarrow>
   (case secondary_start_idx p of None \<Rightarrow> repositories p | Some b \<Rightarrow> take b (repositories p))
     = ds @ ps"
  by (auto simp: tiered_def)

lemma empty_pool_tiered: "tiered empty_pool [] [] []"
  by (simp add: tiered_def empty_pool_def)

lemma Pool_find_packages_tiers:
  assumes "tiered p ds ps ss" and "source_name dep = None"
  shows "Pool_find_packages p dep =
     (case scan_find_packages (ds @ ps) dep of
        Inl e \<Rightarrow> Inl e
      | Inr packages \<Rightarrow>
          (case parent p of
             Some q \<Rightarrow> if packages = [] then Pool_find_packages q dep else Inr packages
           | None \<Rightarrow> Inr packages))"
  using tiered_scanned [OF assms(1)]
  by (simp add: Pool_find_packages_unnamed [OF assms(2)] slice_to_def)

lemma pool_p_s_tiered:
  "\<exists>p. pool_p_s = Inr p \<and> tiered p [] [plain_repo ''p''] [serving_repo ''s'']"
  by (simp add: removal_fixture_defs fixture_defs tiered_def Let_def)

lemma pool_p_s_minus_p_not_tiered:
  "\<exists>p. pool_p_s_minus_p = Inr p \<and> \<not> (\<exists>ds ps. tiered p ds ps [serving_repo ''s''])"
  by (auto simp: removal_fixture_defs fixture_defs tiered_def Let_def)

section \<open>Page: versions\<close>

lemma versions_loop_first_seen:
  "versions_loop ex ls seen = first_seen_from seen (List.map_filter (link_version ex) ls)"
  by (induction ls arbitrary: seen) (auto simp: List.map_filter_simps split: option.splits)

lemma set_first_seen_from: "set (first_seen_from seen vs) = set vs - seen"
  by (induction vs arbitrary: seen) auto

lemma distinct_first_seen_from: "distinct (first_seen_from seen vs)"
  by (induction vs arbitrary: seen) (auto simp: set_first_seen_from)

lemma first_seen_from_index:
  "first_seen_from seen vs =
     map (nth vs) (filter (\<lambda>i. vs ! i \<notin> seen \<union> set (take i vs)) [0..<length vs])"
proof (induction vs arbitrary: seen)
  case Nil
  then show ?case by simp
next
  case (Cons x xs)
  have shift: "[0..<length (x # xs)] = 0 # map Suc [0..<length xs]"
    by (simp add: upt_conv_Cons map_Suc_upt del: upt_Suc)
  show ?case
    unfolding shift
    by (auto simp: Cons.IH filter_map o_def simp del: upt_Suc
        intro!: arg_cong [where f = "map ((!) xs)"] filter_cong)
qed

text \<open>
  C9. \<^verbatim>\<open>Page.versions\<close> yields no version twice, and it yields the versions in the order
  of their first appearance: with \<open>vs\<close> the versions of the page's links in link order
  (links without a version left out), the result is \<open>vs\<close> without every entry that
  occurs at an earlier position. Two links that encode the same version give equal entries
  of \<open>vs\<close>, so only the first is kept.
\<close>

theorem Page_versions_first_seen:
  "distinct (Page_versions ex pg)
   \<and> Page_versions ex pg =
       map (nth (List.map_filter (link_version ex) (Page_links ex pg)))
         (filter
            (\<lambda>i. List.map_filter (link_version ex) (Page_links ex pg) ! i
                  \<notin> set (take i (List.map_filter (link_version ex) (Page_links ex pg))))
            [0..<length (List.map_filter (link_version ex) (Page_links ex pg))])"
proof
  show "distinct (Page_versions ex pg)"
    by (simp add: Page_versions_def versions_loop_first_seen distinct_first_seen_from)
  show "Page_versions ex pg =
       map (nth (List.map_filter (link_version ex) (Page_links ex pg)))
         (filter
            (\<lambda>i. List.map_filter (link_version ex) (Page_links ex pg) ! i
                  \<notin> set (take i (List.map_filter (link_version ex) (Page_links ex pg))))
            [0..<length (List.map_filter (link_version ex) (Page_links ex pg))])"
    using first_seen_from_index [of "{}" "List.map_filter (link_version ex) (Page_links ex pg)"]
    by (simp add: Page_versions_def versions_loop_first_seen)
qed

theorem Page_versions_first_seen_witness:
  "distinct (Page_versions (static_index 200 [''pkg-1.0-py3-none-any.whl'', ''notes.txt'',
       ''pkg-1.0.tar.gz'', ''pkg-2.0.tar.gz'', ''pkg-1.0.tar.gz'']) flask_page)
   \<and> Page_links (static_index 200 [''pkg-1.0-py3-none-any.whl'', ''notes.txt'', ''pkg-1.0.tar.gz'',
       ''pkg-2.0.tar.gz'', ''pkg-1.0.tar.gz'']) flask_page
     = [\<lparr>link_url = ''https://idx/flask/pkg-1.0-py3-none-any.whl'', requires_python = None\<rparr>,
        \<lparr>link_url = ''https://idx/flask/pkg-1.0.tar.gz'', requires_python = None\<rparr>,
        \<lparr>link_url = ''https://idx/flask/pkg-2.0.tar.gz'', requires_python = None\<rparr>,
        \<lparr>link_url = ''https://idx/flask/pkg-1.0.tar.gz'', requires_python = None\<rparr>]
   \<and> Page_versions (static_index 200 [''pkg-1.0-py3-none-any.whl'', ''notes.txt'', ''pkg-1.0.tar.gz'',
       ''pkg-2.0.tar.gz'', ''pkg-1.0.tar.gz'']) flask_page
     = [Version ''1.0'' False, Version ''2.0'' False]"
proof (intro conjI)
  show "distinct (Page_versions (static_index 200 [''pkg-1.0-py3-none-any.whl'', ''notes.txt'',
       ''pkg-1.0.tar.gz'', ''pkg-2.0.tar.gz'', ''pkg-1.0.tar.gz'']) flask_page)"
    using Page_versions_first_seen [of "static_index 200 [''pkg-1.0-py3-none-any.whl'',
      ''notes.txt'', ''pkg-1.0.tar.gz'', ''pkg-2.0.tar.gz'', ''pkg-1.0.tar.gz'']" flask_page]
    by (rule conjunct1)
  show "Page_links (static_index 200 [''pkg-1.0-py3-none-any.whl'', ''notes.txt'', ''pkg-1.0.tar.gz'',
       ''pkg-2.0.tar.gz'', ''pkg-1.0.tar.gz'']) flask_page
     = [\<lparr>link_url = ''https://idx/flask/pkg-1.0-py3-none-any.whl'', requires_python = None\<rparr>,
        \<lparr>link_url = ''https://idx/flask/pkg-1.0.tar.gz'', requires_python = None\<rparr>,
        \<lparr>link_url = ''https://idx/flask/pkg-2.0.tar.gz'', requires_python = None\<rparr>,
        \<lparr>link_url = ''https://idx/flask/pkg-1.0.tar.gz'', requires_python = None\<rparr>]"
    by (simp add: page_defs flask_page_def Let_def)
  show "Page_versions (static_index 200 [''pkg-1.0-py3-none-any.whl'', ''notes.txt'', ''pkg-1.0.tar.gz'',
       ''pkg-2.0.tar.gz'', ''pkg-1.0.tar.gz'']) flask_page
     = [Version ''1.0'' False, Version ''2.0'' False]"
    by (simp add: page_defs flask_page_def Let_def)
qed

section \<open>LegacyRepository: fetching the index page\<close>

text \<open>What the concrete indexes answer.\<close>

lemma django_get:
  "LegacyRepository_get django_index legacy_repo ''/django/'' = Inr (Some django_page)"
  by (simp add: get_defs django_index_def django_page_def)

lemma flask_get:
  "LegacyRepository_get flask_index legacy_repo ''/flask/'' = Inr (Some flask_page)"
  by (simp add: get_defs flask_index_def flask_page_def)

lemma django_versions: "Page_versions django_index django_page = [Version ''4.0a1'' True]"
  by (simp add: page_defs django_index_def django_page_def)

lemma flask_versions:
  "Page_versions flask_index flask_page
     = [Version ''1.9'' False, Version ''2.1'' False, Version ''3.0a1'' True]"
  by (simp add: page_defs flask_index_def flask_page_def)

lemma django_constraint:
  "normalize_constraint django_index (dep_constraint django_dependency) = any_constraint"
  by (simp add: normalize_constraint_def django_index_def static_index_def django_dependency_def)

lemma flask_constraint:
  "normalize_constraint ex (dep_constraint (flask_dependency c)) = c"
  by (simp add: normalize_constraint_def flask_dependency_def)

lemma django_endpoint: "''/'' @ replace_dots (dep_name django_dependency) @ ''/'' = ''/django/''"
  by (simp add: replace_dots_def django_dependency_def)

lemma flask_endpoint: "''/'' @ replace_dots (dep_name (flask_dependency c)) @ ''/'' = ''/flask/''"
  by (simp add: replace_dots_def flask_dependency_def)

lemma empty_store_misses: "\<not> store_has (matches legacy_repo) now key"
  by (simp add: store_has_def store_get_def legacy_repo_def)

lemma django_packages:
  "make_package django_dependency legacy_repo (Version ''4.0a1'' True)
     = legacy_package ''django'' ''4.0a1'' True"
  by (simp add: make_package_def legacy_package_def django_dependency_def legacy_repo_def)

lemma flask_packages:
  "make_package (flask_dependency c) legacy_repo v
     = legacy_package ''flask'' (parsed v) (is_unstable v)"
  by (simp add: make_package_def legacy_package_def flask_dependency_def legacy_repo_def)

lemma flask_not_allowing: "\<not> dep_allows_prereleases (flask_dependency c)"
  by (simp add: flask_dependency_def)

text \<open>The three outcomes of \<^verbatim>\<open>_get\<close> on a response, and what an absent page leads to.\<close>

lemma get_absent:
  "session_get ex (lr_url repo @ endpoint) = Inr response \<Longrightarrow>
   status_code response = 401 \<or> status_code response = 403 \<or> status_code response = 404 \<Longrightarrow>
   LegacyRepository_get ex repo endpoint = Inr None"
  by (auto simp: LegacyRepository_get_def)

lemma get_error:
  "session_get ex (lr_url repo @ endpoint) = Inr response \<Longrightarrow>
   status_code response \<noteq> 401 \<Longrightarrow> status_code response \<noteq> 403 \<Longrightarrow>
   status_code response \<noteq> 404 \<Longrightarrow> 400 \<le> status_code response \<Longrightarrow>
   status_code response < 600 \<Longrightarrow>
   LegacyRepository_get ex repo endpoint = Inl (RepositoryError (HTTPError (status_code response)))"
  by (simp add: LegacyRepository_get_def raise_for_status_def)

lemma get_page:
  "session_get ex (lr_url repo @ endpoint) = Inr response \<Longrightarrow>
   status_code response < 400 \<or> 600 \<le> status_code response \<Longrightarrow>
   LegacyRepository_get ex repo endpoint =
     Inr (Some (Page_init ex (resp_url response) (content response) (headers response)))"
  by (auto simp: LegacyRepository_get_def raise_for_status_def)

lemma find_packages_absent:
  "\<not> store_has (matches repo) now (cache_key dep (normalize_constraint ex (dep_constraint dep))) \<Longrightarrow>
   LegacyRepository_get ex repo (''/'' @ replace_dots (dep_name dep) @ ''/'') = Inr None \<Longrightarrow>
   LegacyRepository_find_packages ex now repo dep = (Inr [], repo)"
  by (simp add: LegacyRepository_find_packages_def Let_def)

lemma find_links_absent:
  "LegacyRepository_get ex repo (''/'' @ replace_dots (pkg_name package) @ ''/'') = Inr None \<Longrightarrow>
   LegacyRepository_find_links_for_package ex repo package = Inr []"
  by (simp add: LegacyRepository_find_links_for_package_def)

text \<open>
  C5, as stated: a status that is neither a success nor one of 401, 403, 404 does not
  always raise. \<^verbatim>\<open>raise_for_status\<close> raises for 400 to 599 only, so a response that
  reaches the caller with a redirection status (here 300) is parsed into a page.
\<close>

theorem redirect_status_is_parsed_counterexample:
  "session_get (static_index 300 []) (lr_url legacy_repo @ ''/django/'')
     = Inr \<lparr>status_code = 300, resp_url = ''https://idx/django/'', content = ''<html>'',
            headers = Map.empty\<rparr>
   \<and> LegacyRepository_get (static_index 300 []) legacy_repo ''/django/'' = Inr (Some django_page)
   \<and> LegacyRepository_get (static_index 300 []) legacy_repo ''/django/''
       \<noteq> Inl (RepositoryError (HTTPError 300))"
  by (simp add: get_defs django_page_def)

text \<open>
  C5, amended. When the session returns a response: for 401, 403 and 404 \<^verbatim>\<open>_get\<close> returns
  no page, and then \<^verbatim>\<open>find_packages\<close> (on a cache miss, where it fetches) and
  \<^verbatim>\<open>find_links_for_package\<close> return the empty list without raising; for every other
  status from 400 to 599 it raises RepositoryError wrapping the HTTP error; for every
  remaining status it returns the page built from the response's own URL, body and headers.
\<close>

theorem LegacyRepository_get_status:
  "session_get ex (lr_url repo @ endpoint) = Inr response \<longrightarrow>
     (status_code response = 401 \<or> status_code response = 403 \<or> status_code response = 404
        \<longrightarrow> LegacyRepository_get ex repo endpoint = Inr None
          \<and> (endpoint = ''/'' @ replace_dots (dep_name dep) @ ''/''
               \<and> \<not> store_has (matches repo) now
                     (cache_key dep (normalize_constraint ex (dep_constraint dep)))
              \<longrightarrow> LegacyRepository_find_packages ex now repo dep = (Inr [], repo))
          \<and> (endpoint = ''/'' @ replace_dots (pkg_name package) @ ''/''
              \<longrightarrow> LegacyRepository_find_links_for_package ex repo package = Inr []))
     \<and> (status_code response \<noteq> 401 \<and> status_code response \<noteq> 403 \<and> status_code response \<noteq> 404
          \<and> 400 \<le> status_code response \<and> status_code response < 600
        \<longrightarrow> LegacyRepository_get ex repo endpoint
              = Inl (RepositoryError (HTTPError (status_code response))))
     \<and> (status_code response < 400 \<or> 600 \<le> status_code response
        \<longrightarrow> LegacyRepository_get ex repo endpoint
              = Inr (Some (Page_init ex (resp_url response) (content response) (headers response))))"
proof (intro impI conjI; (elim conjE)?)
  assume s: "session_get ex (lr_url repo @ endpoint) = Inr response"
    and st: "status_code response = 401 \<or> status_code response = 403 \<or> status_code response = 404"
  show "LegacyRepository_get ex repo endpoint = Inr None"
    using s st by (rule get_absent)
next
  assume s: "session_get ex (lr_url repo @ endpoint) = Inr response"
    and st: "status_code response = 401 \<or> status_code response = 403 \<or> status_code response = 404"
    and e: "endpoint = ''/'' @ replace_dots (dep_name dep) @ ''/''"
    and m: "\<not> store_has (matches repo) now
                     (cache_key dep (normalize_constraint ex (dep_constraint dep)))"
  have "LegacyRepository_get ex repo (''/'' @ replace_dots (dep_name dep) @ ''/'') = Inr None"
    using get_absent [OF s st] e by simp
  with m show "LegacyRepository_find_packages ex now repo dep = (Inr [], repo)"
    by (rule find_packages_absent)
next
  assume s: "session_get ex (lr_url repo @ endpoint) = Inr response"
    and st: "status_code response = 401 \<or> status_code response = 403 \<or> status_code response = 404"
    and e: "endpoint = ''/'' @ replace_dots (pkg_name package) @ ''/''"
  have "LegacyRepository_get ex repo (''/'' @ replace_dots (pkg_name package) @ ''/'') = Inr None"
    using get_absent [OF s st] e by simp
  then show "LegacyRepository_find_links_for_package ex repo package = Inr []"
    by (rule find_links_absent)
next
  assume "session_get ex (lr_url repo @ endpoint) = Inr response"
    and "status_code response \<noteq> 401" "status_code response \<noteq> 403"
    and "status_code response \<noteq> 404" "400 \<le> status_code response"
    and "status_code response < 600"
  then show "LegacyRepository_get ex repo endpoint
              = Inl (RepositoryError (HTTPError (status_code response)))"
    by (rule get_error)
next
  assume "session_get ex (lr_url repo @ endpoint) = Inr response"
    and "status_code response < 400 \<or> 600 \<le> status_code response"
  then show "LegacyRepository_get ex repo endpoint
              = Inr (Some (Page_init ex (resp_url response) (content response) (headers response)))"
    by (rule get_page)
qed

theorem LegacyRepository_get_status_witness:
  "LegacyRepository_get (static_index 401 []) legacy_repo ''/django/'' = Inr None
   \<and> LegacyRepository_find_packages (static_index 401 []) 0 legacy_repo django_dependency
       = (Inr [], legacy_repo)
   \<and> LegacyRepository_find_links_for_package (static_index 401 []) legacy_repo
        (legacy_package ''django'' ''4.0a1'' True) = Inr []
   \<and> LegacyRepository_get (static_index 500 []) legacy_repo ''/django/''
       = Inl (RepositoryError (HTTPError 500))
   \<and> LegacyRepository_get (static_index 200 []) legacy_repo ''/django/'' = Inr (Some django_page)"
proof -
  let ?resp = "\<lambda>n. \<lparr>status_code = n, resp_url = ''https://idx/django/'', content = ''<html>'',
         headers = Map.empty\<rparr>"
  have s: "\<And>n. session_get (static_index n []) (lr_url legacy_repo @ ''/django/'') = Inr (?resp n)"
    by (simp add: static_index_def legacy_repo_def)
  have e1: "''/django/'' = ''/'' @ replace_dots (dep_name django_dependency) @ ''/''"
    by (rule django_endpoint [symmetric])
  have e2: "''/django/'' = ''/'' @ replace_dots (pkg_name (legacy_package ''django'' ''4.0a1'' True)) @ ''/''"
    by (simp add: replace_dots_def legacy_package_def)
  have m: "\<not> store_has (matches legacy_repo) 0
      (cache_key django_dependency
         (normalize_constraint (static_index 401 []) (dep_constraint django_dependency)))"
    by (rule empty_store_misses)
  note t401 = LegacyRepository_get_status [of "static_index 401 []" legacy_repo "''/django/''"
      "?resp 401" django_dependency 0 "legacy_package ''django'' ''4.0a1'' True"]
  note t500 = LegacyRepository_get_status [of "static_index 500 []" legacy_repo "''/django/''"
      "?resp 500" django_dependency 0 "legacy_package ''django'' ''4.0a1'' True"]
  note t200 = LegacyRepository_get_status [of "static_index 200 []" legacy_repo "''/django/''"
      "?resp 200" django_dependency 0 "legacy_package ''django'' ''4.0a1'' True"]
  have w1: "LegacyRepository_get (static_index 401 []) legacy_repo ''/django/'' = Inr None"
    using t401 s [of 401] by simp
  have w2: "LegacyRepository_find_packages (static_index 401 []) 0 legacy_repo django_dependency
       = (Inr [], legacy_repo)"
    using t401 s [of 401] e1 m by simp
  have w3: "LegacyRepository_find_links_for_package (static_index 401 []) legacy_repo
        (legacy_package ''django'' ''4.0a1'' True) = Inr []"
    using t401 s [of 401] e2 by simp
  have w4: "LegacyRepository_get (static_index 500 []) legacy_repo ''/django/''
       = Inl (RepositoryError (HTTPError 500))"
    using t500 s [of 500] by simp
  have "LegacyRepository_get (static_index 200 []) legacy_repo ''/django/''
       = Inr (Some (Page_init (static_index 200 []) ''https://idx/django/'' ''<html>'' Map.empty))"
    using t200 s [of 200] by simp
  then have w5: "LegacyRepository_get (static_index 200 []) legacy_repo ''/django/''
      = Inr (Some django_page)"
    by (simp add: Page_init_def endswith_slash_def django_page_def)
  show ?thesis by (intro conjI w1 w2 w3 w4 w5)
qed

section \<open>LegacyRepository: the candidate packages\<close>

lemma select_versions_filter:
  "select_versions allow c vs versions ignored =
     (versions @ filter (\<lambda>v. \<not> (is_unstable v \<and> \<not> allow) \<and> allows c v) vs,
      ignored @ (if is_any c then filter (\<lambda>v. is_unstable v \<and> \<not> allow) vs else []))"
  by (induction vs arbitrary: versions ignored) auto

lemma build_packages_two:
  "build_packages dep repo c [versions, ignored] [] =
     (if versions \<noteq> [] \<or> \<not> is_any c then map (make_package dep repo) versions
      else map (make_package dep repo) ignored)"
  by (auto simp: Let_def)

lemma find_packages_miss:
  assumes "\<not> store_has (matches repo) now (cache_key dep (normalize_constraint ex (dep_constraint dep)))"
    and "LegacyRepository_get ex repo (''/'' @ replace_dots (dep_name dep) @ ''/'') = Inr (Some pg)"
  shows "LegacyRepository_find_packages ex now repo dep =
     (let c = normalize_constraint ex (dep_constraint dep);
          allow = allow_prereleases_of dep c;
          versions = filter (\<lambda>v. \<not> (is_unstable v \<and> \<not> allow) \<and> allows c v) (Page_versions ex pg);
          ignored = (if is_any c then filter (\<lambda>v. is_unstable v \<and> \<not> allow) (Page_versions ex pg)
                     else [])
      in (Inr (if versions \<noteq> [] \<or> \<not> is_any c then map (make_package dep repo) versions
               else map (make_package dep repo) ignored),
          repo\<lparr>matches := store_put (matches repo) now (cache_key dep c) versions 5\<rparr>))"
  using assms
  by (simp add: LegacyRepository_find_packages_def Let_def select_versions_filter
      build_packages_two del: build_packages.simps)

lemma find_packages_hit:
  assumes "store_get (matches repo) now (cache_key dep (normalize_constraint ex (dep_constraint dep)))
             = Some versions"
  shows "LegacyRepository_find_packages ex now repo dep =
           (Inr (map (make_package dep repo) versions), repo)"
  using assms
  by (simp add: LegacyRepository_find_packages_def Let_def store_has_def build_packages_two
      del: build_packages.simps)

lemma allow_prereleases_of_eq:
  "allow_prereleases_of dep c = (dep_allows_prereleases dep \<or> range_with_unstable_bound c)"
  by (auto simp: allow_prereleases_of_def range_with_unstable_bound_def
      split: constraint.splits option.splits)

lemma miss_with_unstable_bound:
  assumes "\<not> store_has (matches repo) now (cache_key dep (normalize_constraint ex (dep_constraint dep)))"
    and "LegacyRepository_get ex repo (''/'' @ replace_dots (dep_name dep) @ ''/'') = Inr (Some pg)"
    and "range_with_unstable_bound (normalize_constraint ex (dep_constraint dep))"
  shows "fst (LegacyRepository_find_packages ex now repo dep) =
      Inr (map (make_package dep repo)
             (filter (allows (normalize_constraint ex (dep_constraint dep))) (Page_versions ex pg)))"
proof -
  have "allow_prereleases_of dep (normalize_constraint ex (dep_constraint dep))"
    using assms(3) by (simp add: allow_prereleases_of_eq)
  then show ?thesis
    using assms(1,2) by (simp add: find_packages_miss Let_def)
qed

lemma miss_not_any:
  assumes "\<not> store_has (matches repo) now (cache_key dep (normalize_constraint ex (dep_constraint dep)))"
    and "LegacyRepository_get ex repo (''/'' @ replace_dots (dep_name dep) @ ''/'') = Inr (Some pg)"
    and "\<not> is_any (normalize_constraint ex (dep_constraint dep))"
  shows "fst (LegacyRepository_find_packages ex now repo dep) =
      Inr (map (make_package dep repo)
             (filter (\<lambda>v. (allow_prereleases_of dep (normalize_constraint ex (dep_constraint dep))
                            \<or> \<not> is_unstable v)
                          \<and> allows (normalize_constraint ex (dep_constraint dep)) v)
                (Page_versions ex pg)))"
proof -
  have "filter (\<lambda>v. \<not> (is_unstable v
                        \<and> \<not> allow_prereleases_of dep (normalize_constraint ex (dep_constraint dep)))
                   \<and> allows (normalize_constraint ex (dep_constraint dep)) v) (Page_versions ex pg)
      = filter (\<lambda>v. (allow_prereleases_of dep (normalize_constraint ex (dep_constraint dep))
                            \<or> \<not> is_unstable v)
                          \<and> allows (normalize_constraint ex (dep_constraint dep)) v)
                (Page_versions ex pg)"
    by (rule filter_cong) auto
  then show ?thesis
    using assms by (simp add: find_packages_miss Let_def)
qed

lemma miss_any_only_unstable:
  assumes "\<not> store_has (matches repo) now (cache_key dep (normalize_constraint ex (dep_constraint dep)))"
    and "LegacyRepository_get ex repo (''/'' @ replace_dots (dep_name dep) @ ''/'') = Inr (Some pg)"
    and "is_any (normalize_constraint ex (dep_constraint dep))"
    and "\<not> allow_prereleases_of dep (normalize_constraint ex (dep_constraint dep))"
    and "\<forall>v \<in> set (Page_versions ex pg). is_unstable v"
  shows "LegacyRepository_find_packages ex now repo dep =
      (Inr (map (make_package dep repo) (Page_versions ex pg)),
       repo\<lparr>matches := store_put (matches repo) now
                 (cache_key dep (normalize_constraint ex (dep_constraint dep))) [] 5\<rparr>)"
proof -
  have none: "filter (\<lambda>v. \<not> is_unstable v \<and> allows (normalize_constraint ex (dep_constraint dep)) v)
                (Page_versions ex pg) = []"
    using assms(5) by (simp add: filter_empty_conv)
  have all: "filter is_unstable (Page_versions ex pg) = Page_versions ex pg"
    using assms(5) by (simp add: filter_id_conv)
  show ?thesis
    using assms(1-4) none all by (simp add: find_packages_miss Let_def)
qed

text \<open>
  C6. The prerelease allowance of \<^verbatim>\<open>find_packages\<close> is the dependency's flag, or true
  when the constraint is a version range whose minimum or maximum bound is unstable,
  whatever the flag. In the call: on a cache miss with a page, under such a range every
  version of the page that the constraint allows is returned, unstable ones included;
  under a constraint that is neither such a range nor "any", unstable versions are
  returned exactly when the dependency's flag allows them.
\<close>

theorem prerelease_allowance:
  "allow_prereleases_of dep c = (dep_allows_prereleases dep \<or> range_with_unstable_bound c)
   \<and> (c = normalize_constraint ex (dep_constraint dep)
      \<and> \<not> store_has (matches repo) now (cache_key dep c)
      \<and> LegacyRepository_get ex repo (''/'' @ replace_dots (dep_name dep) @ ''/'') = Inr (Some pg)
      \<and> range_with_unstable_bound c
      \<longrightarrow> fst (LegacyRepository_find_packages ex now repo dep) =
            Inr (map (make_package dep repo) (filter (allows c) (Page_versions ex pg))))
   \<and> (c = normalize_constraint ex (dep_constraint dep)
      \<and> \<not> store_has (matches repo) now (cache_key dep c)
      \<and> LegacyRepository_get ex repo (''/'' @ replace_dots (dep_name dep) @ ''/'') = Inr (Some pg)
      \<and> \<not> range_with_unstable_bound c \<and> \<not> is_any c
      \<longrightarrow> fst (LegacyRepository_find_packages ex now repo dep) =
            Inr (map (make_package dep repo)
                   (filter (\<lambda>v. (dep_allows_prereleases dep \<or> \<not> is_unstable v) \<and> allows c v)
                      (Page_versions ex pg))))"
proof (intro conjI impI; (elim conjE)?)
  show "allow_prereleases_of dep c = (dep_allows_prereleases dep \<or> range_with_unstable_bound c)"
    by (rule allow_prereleases_of_eq)
next
  assume c: "c = normalize_constraint ex (dep_constraint dep)"
    and miss: "\<not> store_has (matches repo) now (cache_key dep c)"
    and get: "LegacyRepository_get ex repo (''/'' @ replace_dots (dep_name dep) @ ''/'') = Inr (Some pg)"
    and b: "range_with_unstable_bound c"
  show "fst (LegacyRepository_find_packages ex now repo dep) =
            Inr (map (make_package dep repo) (filter (allows c) (Page_versions ex pg)))"
    using miss_with_unstable_bound [of repo now dep ex pg] miss get b unfolding c by simp
next
  assume c: "c = normalize_constraint ex (dep_constraint dep)"
    and miss: "\<not> store_has (matches repo) now (cache_key dep c)"
    and get: "LegacyRepository_get ex repo (''/'' @ replace_dots (dep_name dep) @ ''/'') = Inr (Some pg)"
    and nb: "\<not> range_with_unstable_bound c" and na: "\<not> is_any c"
  have "allow_prereleases_of dep c = dep_allows_prereleases dep"
    using nb by (simp add: allow_prereleases_of_eq)
  then show "fst (LegacyRepository_find_packages ex now repo dep) =
            Inr (map (make_package dep repo)
                   (filter (\<lambda>v. (dep_allows_prereleases dep \<or> \<not> is_unstable v) \<and> allows c v)
                      (Page_versions ex pg)))"
    using miss_not_any [of repo now dep ex pg] miss get na unfolding c by simp
qed

theorem prerelease_allowance_witness:
  "at_least_3a1 = normalize_constraint flask_index (dep_constraint (flask_dependency at_least_3a1))
   \<and> \<not> dep_allows_prereleases (flask_dependency at_least_3a1)
   \<and> range_with_unstable_bound at_least_3a1
   \<and> allow_prereleases_of (flask_dependency at_least_3a1) at_least_3a1
   \<and> \<not> store_has (matches legacy_repo) 0 (cache_key (flask_dependency at_least_3a1) at_least_3a1)
   \<and> LegacyRepository_get flask_index legacy_repo
        (''/'' @ replace_dots (dep_name (flask_dependency at_least_3a1)) @ ''/'') = Inr (Some flask_page)
   \<and> fst (LegacyRepository_find_packages flask_index 0 legacy_repo (flask_dependency at_least_3a1))
       = Inr [legacy_package ''flask'' ''3.0a1'' True]
   \<and> \<not> range_with_unstable_bound at_least_2 \<and> \<not> is_any at_least_2
   \<and> \<not> allow_prereleases_of (flask_dependency at_least_2) at_least_2
   \<and> fst (LegacyRepository_find_packages flask_index 0 legacy_repo (flask_dependency at_least_2))
       = Inr [legacy_package ''flask'' ''2.1'' False]"
proof -
  note thm3 = prerelease_allowance [of "flask_dependency at_least_3a1" at_least_3a1 flask_index
        legacy_repo 0 flask_page]
  note thm2 = prerelease_allowance [of "flask_dependency at_least_2" at_least_2 flask_index
        legacy_repo 0 flask_page]
  have a1: "at_least_3a1 = normalize_constraint flask_index (dep_constraint (flask_dependency at_least_3a1))"
    by (simp add: flask_constraint)
  have a2: "\<not> dep_allows_prereleases (flask_dependency at_least_3a1)"
    by (rule flask_not_allowing)
  have a3: "range_with_unstable_bound at_least_3a1"
    by (simp add: range_with_unstable_bound_def at_least_3a1_def)
  have a4: "allow_prereleases_of (flask_dependency at_least_3a1) at_least_3a1"
    using thm3 a3 by blast
  have a5: "\<not> store_has (matches legacy_repo) 0 (cache_key (flask_dependency at_least_3a1) at_least_3a1)"
    by (rule empty_store_misses)
  have a6: "LegacyRepository_get flask_index legacy_repo
        (''/'' @ replace_dots (dep_name (flask_dependency at_least_3a1)) @ ''/'') = Inr (Some flask_page)"
    unfolding flask_endpoint by (rule flask_get)
  have "fst (LegacyRepository_find_packages flask_index 0 legacy_repo (flask_dependency at_least_3a1))
      = Inr (map (make_package (flask_dependency at_least_3a1) legacy_repo)
               (filter (allows at_least_3a1) (Page_versions flask_index flask_page)))"
    using thm3 a1 a3 a5 a6 by blast
  then have a7: "fst (LegacyRepository_find_packages flask_index 0 legacy_repo
      (flask_dependency at_least_3a1)) = Inr [legacy_package ''flask'' ''3.0a1'' True]"
    by (simp add: flask_versions flask_packages at_least_3a1_def)
  have b1: "at_least_2 = normalize_constraint flask_index (dep_constraint (flask_dependency at_least_2))"
    by (simp add: flask_constraint)
  have b2: "\<not> range_with_unstable_bound at_least_2"
    by (simp add: range_with_unstable_bound_def at_least_2_def)
  have b3: "\<not> is_any at_least_2" by (simp add: at_least_2_def)
  have b4: "\<not> allow_prereleases_of (flask_dependency at_least_2) at_least_2"
    using thm2 b2 flask_not_allowing [of at_least_2] by blast
  have b5: "\<not> store_has (matches legacy_repo) 0 (cache_key (flask_dependency at_least_2) at_least_2)"
    by (rule empty_store_misses)
  have b6: "LegacyRepository_get flask_index legacy_repo
        (''/'' @ replace_dots (dep_name (flask_dependency at_least_2)) @ ''/'') = Inr (Some flask_page)"
    unfolding flask_endpoint by (rule flask_get)
  have "fst (LegacyRepository_find_packages flask_index 0 legacy_repo (flask_dependency at_least_2))
      = Inr (map (make_package (flask_dependency at_least_2) legacy_repo)
               (filter (\<lambda>v. (dep_allows_prereleases (flask_dependency at_least_2) \<or> \<not> is_unstable v)
                             \<and> allows at_least_2 v)
                  (Page_versions flask_index flask_page)))"
    using thm2 b1 b2 b3 b5 b6 by blast
  then have b7: "fst (LegacyRepository_find_packages flask_index 0 legacy_repo
      (flask_dependency at_least_2)) = Inr [legacy_package ''flask'' ''2.1'' False]"
    by (simp add: flask_versions flask_packages flask_not_allowing at_least_2_def)
  show ?thesis
    by (intro conjI a1 a2 a3 a4 a5 a6 a7 b2 b3 b4 b7)
qed

text \<open>
  C4. On a cache miss with a page and prereleases not allowed: when the constraint is
  "any" and every version of the page is unstable, the call returns one package for each
  version of the page; when the constraint is not "any", it returns the packages of the
  stable versions that the constraint allows and nothing else, even if that is nothing.
\<close>

theorem prerelease_fallback_on_miss:
  "c = normalize_constraint ex (dep_constraint dep)
   \<and> \<not> store_has (matches repo) now (cache_key dep c)
   \<and> LegacyRepository_get ex repo (''/'' @ replace_dots (dep_name dep) @ ''/'') = Inr (Some pg)
   \<and> \<not> allow_prereleases_of dep c
   \<longrightarrow>
     (is_any c \<and> (\<forall>v \<in> set (Page_versions ex pg). is_unstable v)
        \<longrightarrow> fst (LegacyRepository_find_packages ex now repo dep) =
              Inr (map (make_package dep repo) (Page_versions ex pg)))
     \<and> (\<not> is_any c
        \<longrightarrow> fst (LegacyRepository_find_packages ex now repo dep) =
              Inr (map (make_package dep repo)
                     (filter (\<lambda>v. \<not> is_unstable v \<and> allows c v) (Page_versions ex pg))))"
proof (intro conjI impI; elim conjE)
  assume c: "c = normalize_constraint ex (dep_constraint dep)"
    and miss: "\<not> store_has (matches repo) now (cache_key dep c)"
    and get: "LegacyRepository_get ex repo (''/'' @ replace_dots (dep_name dep) @ ''/'') = Inr (Some pg)"
    and na: "\<not> allow_prereleases_of dep c"
    and any: "is_any c" and un: "\<forall>v \<in> set (Page_versions ex pg). is_unstable v"
  show "fst (LegacyRepository_find_packages ex now repo dep) =
              Inr (map (make_package dep repo) (Page_versions ex pg))"
    using miss_any_only_unstable [of repo now dep ex pg] miss get na any un unfolding c by simp
next
  assume c: "c = normalize_constraint ex (dep_constraint dep)"
    and miss: "\<not> store_has (matches repo) now (cache_key dep c)"
    and get: "LegacyRepository_get ex repo (''/'' @ replace_dots (dep_name dep) @ ''/'') = Inr (Some pg)"
    and na: "\<not> allow_prereleases_of dep c"
    and nany: "\<not> is_any c"
  show "fst (LegacyRepository_find_packages ex now repo dep) =
              Inr (map (make_package dep repo)
                     (filter (\<lambda>v. \<not> is_unstable v \<and> allows c v) (Page_versions ex pg)))"
    using miss_not_any [of repo now dep ex pg] miss get na nany unfolding c by simp
qed

theorem prerelease_fallback_on_miss_witness:
  "any_constraint = normalize_constraint django_index (dep_constraint django_dependency)
   \<and> \<not> store_has (matches legacy_repo) 0 (cache_key django_dependency any_constraint)
   \<and> LegacyRepository_get django_index legacy_repo (''/'' @ replace_dots (dep_name django_dependency) @ ''/'')
       = Inr (Some django_page)
   \<and> \<not> allow_prereleases_of django_dependency any_constraint
   \<and> is_any any_constraint
   \<and> Page_versions django_index django_page = [Version ''4.0a1'' True]
   \<and> fst (LegacyRepository_find_packages django_index 0 legacy_repo django_dependency)
       = Inr [legacy_package ''django'' ''4.0a1'' True]
   \<and> at_least_2 = normalize_constraint flask_index (dep_constraint (flask_dependency at_least_2))
   \<and> \<not> store_has (matches legacy_repo) 0 (cache_key (flask_dependency at_least_2) at_least_2)
   \<and> LegacyRepository_get flask_index legacy_repo
        (''/'' @ replace_dots (dep_name (flask_dependency at_least_2)) @ ''/'') = Inr (Some flask_page)
   \<and> \<not> allow_prereleases_of (flask_dependency at_least_2) at_least_2
   \<and> \<not> is_any at_least_2
   \<and> Page_versions flask_index flask_page
       = [Version ''1.9'' False, Version ''2.1'' False, Version ''3.0a1'' True]
   \<and> fst (LegacyRepository_find_packages flask_index 0 legacy_repo (flask_dependency at_least_2))
       = Inr [legacy_package ''flask'' ''2.1'' False]"
proof -
  have d1: "any_constraint = normalize_constraint django_index (dep_constraint django_dependency)"
    by (simp add: django_constraint)
  have d2: "\<not> store_has (matches legacy_repo) 0 (cache_key django_dependency any_constraint)"
    by (rule empty_store_misses)
  have d3: "LegacyRepository_get django_index legacy_repo
      (''/'' @ replace_dots (dep_name django_dependency) @ ''/'') = Inr (Some django_page)"
    unfolding django_endpoint by (rule django_get)
  have d4: "\<not> allow_prereleases_of django_dependency any_constraint"
    by (simp add: allow_prereleases_of_def any_constraint_def django_dependency_def)
  have d5: "is_any any_constraint" by (simp add: any_constraint_def)
  have d6: "\<forall>v \<in> set (Page_versions django_index django_page). is_unstable v"
    by (simp add: django_versions)
  have "fst (LegacyRepository_find_packages django_index 0 legacy_repo django_dependency)
      = Inr (map (make_package django_dependency legacy_repo) (Page_versions django_index django_page))"
    using prerelease_fallback_on_miss [of any_constraint django_index django_dependency legacy_repo 0
        django_page] d1 d2 d3 d4 d5 d6 by blast
  then have d7: "fst (LegacyRepository_find_packages django_index 0 legacy_repo django_dependency)
       = Inr [legacy_package ''django'' ''4.0a1'' True]"
    by (simp add: django_versions django_packages)
  have f1: "at_least_2 = normalize_constraint flask_index (dep_constraint (flask_dependency at_least_2))"
    by (simp add: flask_constraint)
  have f2: "\<not> store_has (matches legacy_repo) 0 (cache_key (flask_dependency at_least_2) at_least_2)"
    by (rule empty_store_misses)
  have f3: "LegacyRepository_get flask_index legacy_repo
        (''/'' @ replace_dots (dep_name (flask_dependency at_least_2)) @ ''/'') = Inr (Some flask_page)"
    unfolding flask_endpoint by (rule flask_get)
  have f4: "\<not> allow_prereleases_of (flask_dependency at_least_2) at_least_2"
    by (simp add: allow_prereleases_of_def at_least_2_def flask_dependency_def)
  have f5: "\<not> is_any at_least_2" by (simp add: at_least_2_def)
  have "fst (LegacyRepository_find_packages flask_index 0 legacy_repo (flask_dependency at_least_2))
      = Inr (map (make_package (flask_dependency at_least_2) legacy_repo)
               (filter (\<lambda>v. \<not> is_unstable v \<and> allows at_least_2 v)
                  (Page_versions flask_index flask_page)))"
    using prerelease_fallback_on_miss [of at_least_2 flask_index "flask_dependency at_least_2"
        legacy_repo 0 flask_page] f1 f2 f3 f4 f5 by blast
  then have f7: "fst (LegacyRepository_find_packages flask_index 0 legacy_repo
        (flask_dependency at_least_2)) = Inr [legacy_package ''flask'' ''2.1'' False]"
    by (simp add: flask_versions flask_packages at_least_2_def)
  show ?thesis
    by (intro conjI d1 d2 d3 d4 d5 django_versions d7 f1 f2 f3 f4 f5 flask_versions f7)
qed

text \<open>
  C10. On a cache hit the packages are built from the cached list alone. So for a page
  with only unstable versions, an "any" constraint and prereleases not allowed, the first
  call (a miss at time \<open>t0\<close>) returns the prerelease packages and caches the empty
  primary list, and the same call at a time \<open>t1\<close> within the time to live returns the
  empty list.
\<close>

theorem cache_hit_skips_prerelease_fallback:
  "(store_get (matches repo) now (cache_key dep (normalize_constraint ex (dep_constraint dep)))
       = Some cached
     \<longrightarrow> LegacyRepository_find_packages ex now repo dep =
           (Inr (map (make_package dep repo) cached), repo))
   \<and> (c = normalize_constraint ex (dep_constraint dep)
      \<and> \<not> store_has (matches repo) t0 (cache_key dep c)
      \<and> LegacyRepository_get ex repo (''/'' @ replace_dots (dep_name dep) @ ''/'') = Inr (Some pg)
      \<and> is_any c \<and> \<not> allow_prereleases_of dep c
      \<and> (\<forall>v \<in> set (Page_versions ex pg). is_unstable v)
      \<and> t0 \<le> t1 \<and> t1 < t0 + 5
      \<longrightarrow> fst (LegacyRepository_find_packages ex t0 repo dep) =
            Inr (map (make_package dep repo) (Page_versions ex pg))
          \<and> store_get (matches (snd (LegacyRepository_find_packages ex t0 repo dep))) t1
              (cache_key dep c) = Some []
          \<and> fst (LegacyRepository_find_packages ex t1
                   (snd (LegacyRepository_find_packages ex t0 repo dep)) dep) = Inr [])"
proof (intro conjI impI; (elim conjE)?)
  assume "store_get (matches repo) now (cache_key dep (normalize_constraint ex (dep_constraint dep)))
       = Some cached"
  then show "LegacyRepository_find_packages ex now repo dep =
           (Inr (map (make_package dep repo) cached), repo)"
    by (rule find_packages_hit)
next
  assume c: "c = normalize_constraint ex (dep_constraint dep)"
    and miss: "\<not> store_has (matches repo) t0 (cache_key dep c)"
    and get: "LegacyRepository_get ex repo (''/'' @ replace_dots (dep_name dep) @ ''/'') = Inr (Some pg)"
    and any: "is_any c" and na: "\<not> allow_prereleases_of dep c"
    and un: "\<forall>v \<in> set (Page_versions ex pg). is_unstable v"
    and t: "t0 \<le> t1" "t1 < t0 + 5"
  let ?r1 = "snd (LegacyRepository_find_packages ex t0 repo dep)"
  have first: "LegacyRepository_find_packages ex t0 repo dep =
      (Inr (map (make_package dep repo) (Page_versions ex pg)),
       repo\<lparr>matches := store_put (matches repo) t0 (cache_key dep c) [] 5\<rparr>)"
    using miss_any_only_unstable [of repo t0 dep ex pg] miss get any na un unfolding c by simp
  have cached: "store_get (matches ?r1) t1 (cache_key dep c) = Some []"
    using t by (simp add: first store_get_def store_put_def)
  have second: "LegacyRepository_find_packages ex t1 ?r1 dep
      = (Inr (map (make_package dep ?r1) []), ?r1)"
    using find_packages_hit [of ?r1 t1 dep ex "[]"] cached unfolding c by simp
  show "fst (LegacyRepository_find_packages ex t0 repo dep) =
            Inr (map (make_package dep repo) (Page_versions ex pg))"
    using first by simp
  show "store_get (matches (snd (LegacyRepository_find_packages ex t0 repo dep))) t1
              (cache_key dep c) = Some []"
    using cached .
  show "fst (LegacyRepository_find_packages ex t1
                   (snd (LegacyRepository_find_packages ex t0 repo dep)) dep) = Inr []"
    using second by simp
qed

theorem cache_hit_skips_prerelease_fallback_witness:
  "any_constraint = normalize_constraint django_index (dep_constraint django_dependency)
   \<and> \<not> store_has (matches legacy_repo) 0 (cache_key django_dependency any_constraint)
   \<and> LegacyRepository_get django_index legacy_repo (''/'' @ replace_dots (dep_name django_dependency) @ ''/'')
       = Inr (Some django_page)
   \<and> is_any any_constraint
   \<and> \<not> allow_prereleases_of django_dependency any_constraint
   \<and> Page_versions django_index django_page = [Version ''4.0a1'' True]
   \<and> (0::nat) \<le> 3 \<and> (3::nat) < 0 + 5
   \<and> fst (LegacyRepository_find_packages django_index 0 legacy_repo django_dependency)
       = Inr [legacy_package ''django'' ''4.0a1'' True]
   \<and> fst (LegacyRepository_find_packages django_index 3
            (snd (LegacyRepository_find_packages django_index 0 legacy_repo django_dependency))
            django_dependency) = Inr []"
proof -
  have d1: "any_constraint = normalize_constraint django_index (dep_constraint django_dependency)"
    by (simp add: django_constraint)
  have d2: "\<not> store_has (matches legacy_repo) 0 (cache_key django_dependency any_constraint)"
    by (rule empty_store_misses)
  have d3: "LegacyRepository_get django_index legacy_repo
      (''/'' @ replace_dots (dep_name django_dependency) @ ''/'') = Inr (Some django_page)"
    unfolding django_endpoint by (rule django_get)
  have d4: "\<not> allow_prereleases_of django_dependency any_constraint"
    by (simp add: allow_prereleases_of_def any_constraint_def django_dependency_def)
  have d5: "is_any any_constraint" by (simp add: any_constraint_def)
  have d6: "\<forall>v \<in> set (Page_versions django_index django_page). is_unstable v"
    by (simp add: django_versions)
  have t: "(0::nat) \<le> 3" "(3::nat) < 0 + 5" by simp_all
  have both: "fst (LegacyRepository_find_packages django_index 0 legacy_repo django_dependency)
        = Inr (map (make_package django_dependency legacy_repo) (Page_versions django_index django_page))
      \<and> fst (LegacyRepository_find_packages django_index 3
            (snd (LegacyRepository_find_packages django_index 0 legacy_repo django_dependency))
            django_dependency) = Inr []"
    using cache_hit_skips_prerelease_fallback [of legacy_repo 0 django_dependency django_index "[]"
        any_constraint 0 django_page 3] d1 d2 d3 d4 d5 d6 t by blast
  then have d7: "fst (LegacyRepository_find_packages django_index 0 legacy_repo django_dependency)
       = Inr [legacy_package ''django'' ''4.0a1'' True]"
    by (simp add: django_versions django_packages)
  from both have d8: "fst (LegacyRepository_find_packages django_index 3
            (snd (LegacyRepository_find_packages django_index 0 legacy_repo django_dependency))
            django_dependency) = Inr []" by simp
  show ?thesis
    by (intro conjI d1 d2 d3 d5 d4 django_versions t d7 d8)
qed

end
